theory Spec2Isabelle
  imports Main "HOL-Library.AList"
begin

section \<open>The web chat component \<open>Web\<close> of \<open>views/lite/main.tsx\<close>\<close>

text \<open>
  The component is glue between a socket client, a store and the hosting page. Its
  methods are modelled as functions that return the list of calls they make on these
  collaborators, in order, together with the outcome (a value or a thrown error) and,
  where the method writes a field of the component, the new component state.
\<close>

subsection \<open>JavaScript values\<close>

text \<open>
  Values as they arrive from \<open>JSON.parse\<close> and from \<open>postMessage\<close>. An object is the
  list of its own enumerable properties in the order \<open>Object.keys\<close> reports them: the
  array indices in ascending order, then the other keys in the order of their creation;
  a well-formed object has distinct keys. \<open>JObj\<close> is an object with the prototype that
  an object literal and a parsed object have, \<open>Object.prototype\<close>; \<open>JObjP kvs p\<close> is an
  object whose prototype has been replaced by \<open>p\<close>, an object or \<open>null\<close>. Numbers are
  restricted to integers. The properties of \<open>Object.prototype\<close> and \<open>Array.prototype\<close>
  themselves and the \<open>length\<close> of arrays and strings are left out of reads: the
  component reads only the fixed keys \<open>action\<close>, \<open>payload\<close>, \<open>type\<close>, \<open>text\<close>, \<open>config\<close>,
  \<open>overrides\<close>, \<open>userId\<close>, \<open>module\<close>, \<open>message_type\<close> and the keys \<open>Object.keys\<close> gives
  it, none of which is among them.
\<close>

datatype jsval =
    JUndefined
  | JNull
  | JBool bool
  | JNum int
  | JStr string
  | JArr "jsval list"
  | JObj "(string \<times> jsval) list"
  | JObjP "(string \<times> jsval) list" jsval

datatype error = TypeError | SyntaxError | URIError | Rejection

text \<open>Truthiness, as \<open>&&\<close>, \<open>||\<close>, \<open>!\<close> and \<open>if\<close> test it.\<close>

fun truthy :: "jsval \<Rightarrow> bool" where
  "truthy JUndefined = False"
| "truthy JNull = False"
| "truthy (JBool b) = b"
| "truthy (JNum n) = (n \<noteq> 0)"
| "truthy (JStr s) = (s \<noteq> [])"
| "truthy (JArr xs) = True"
| "truthy (JObj kvs) = True"
| "truthy (JObjP kvs p) = True"

text \<open>Reading a property of \<open>undefined\<close> or \<open>null\<close> throws a TypeError.\<close>

fun nullish :: "jsval \<Rightarrow> bool" where
  "nullish JUndefined = True"
| "nullish JNull = True"
| "nullish v = False"

fun string_of_nat :: "nat \<Rightarrow> string" where
  "string_of_nat n =
     (if n < 10 then [''0123456789'' ! n]
      else string_of_nat (n div 10) @ [''0123456789'' ! (n mod 10)])"

declare string_of_nat.simps [simp del]

text \<open>
  The own enumerable properties of a value: those of an object, the indices of an array
  and of a string; a number, a boolean, \<open>null\<close> and \<open>undefined\<close> have none.
\<close>

fun own_props :: "jsval \<Rightarrow> (string \<times> jsval) list" where
  "own_props (JObj kvs) = kvs"
| "own_props (JObjP kvs p) = kvs"
| "own_props (JArr xs) = zip (map string_of_nat [0..<length xs]) xs"
| "own_props (JStr s) = zip (map string_of_nat [0..<length s]) (map (\<lambda>c. JStr [c]) s)"
| "own_props v = []"

text \<open>
  \<open>v.k\<close> for a value \<open>v\<close> that is not nullish: the own property, or else the property
  found along the chain of replaced prototypes, or else \<open>undefined\<close>.
\<close>

fun field :: "jsval \<Rightarrow> string \<Rightarrow> jsval" where
  "field (JObjP kvs p) k = (case map_of kvs k of None \<Rightarrow> field p k | Some x \<Rightarrow> x)"
| "field v k = (case map_of (own_props v) k of None \<Rightarrow> JUndefined | Some x \<Rightarrow> x)"

text \<open>\<open>v.k\<close> for any value: the read throws on \<open>undefined\<close> and \<open>null\<close>.\<close>

definition get_prop :: "jsval \<Rightarrow> string \<Rightarrow> error + jsval" where
  "get_prop v k = (if nullish v then Inl TypeError else Inr (field v k))"

text \<open>
  An array index is a key that is the decimal numeral, without leading zeros, of a
  number below \<open>2^32 - 1\<close>.
\<close>

definition is_digit :: "char \<Rightarrow> bool" where
  "is_digit c \<longleftrightarrow> c \<in> set ''0123456789''"

definition digit_value :: "char \<Rightarrow> nat" where
  "digit_value c = of_char c - 48"

definition array_index :: "string \<Rightarrow> nat option" where
  "array_index k =
     (let n = foldl (\<lambda>a c. 10 * a + digit_value c) 0 k
      in if k \<noteq> [] \<and> list_all is_digit k \<and> (k = ''0'' \<or> hd k \<noteq> CHR ''0'') \<and> n < 4294967295
         then Some n else None)"

text \<open>The order \<open>Object.keys\<close> gives: array indices ascending, then the other keys.\<close>

fun own_key_order :: "string list \<Rightarrow> bool" where
  "own_key_order [] = True"
| "own_key_order [k] = True"
| "own_key_order (k # k' # ks) =
     ((case array_index k' of
         None \<Rightarrow> True
       | Some n \<Rightarrow> (case array_index k of None \<Rightarrow> False | Some m \<Rightarrow> m < n))
      \<and> own_key_order (k' # ks))"

text \<open>
  Creating or updating an own property: a key the object has keeps its place; a new
  array index goes before the first key that is a greater index or no index; any other
  new key goes to the end.
\<close>

fun insert_index :: "nat \<Rightarrow> string \<times> jsval \<Rightarrow> (string \<times> jsval) list \<Rightarrow> (string \<times> jsval) list" where
  "insert_index n kv [] = [kv]"
| "insert_index n kv (x # xs) =
     (case array_index (fst x) of
        None \<Rightarrow> kv # x # xs
      | Some m \<Rightarrow> if m < n then x # insert_index n kv xs else kv # x # xs)"

definition put_own :: "string \<Rightarrow> jsval \<Rightarrow> (string \<times> jsval) list \<Rightarrow> (string \<times> jsval) list" where
  "put_own k v kvs =
     (if k \<in> fst ` set kvs then AList.update k v kvs
      else case array_index k of
             None \<Rightarrow> kvs @ [(k, v)]
           | Some n \<Rightarrow> insert_index n (k, v) kvs)"

text \<open>
  A write of the key \<open>__proto__\<close> to an object that has no such own property looks the
  key up along the prototype chain. \<open>proto_accessor v\<close> tells whether the lookup that
  starts at \<open>v\<close> ends at the accessor of \<open>Object.prototype\<close>: no object on the way has an
  own property of that name, and the chain does not end at \<open>null\<close> before.
\<close>

fun proto_accessor :: "jsval \<Rightarrow> bool" where
  "proto_accessor (JObjP kvs p) = (''__proto__'' \<notin> fst ` set kvs \<and> proto_accessor p)"
| "proto_accessor (JObj kvs) = (''__proto__'' \<notin> fst ` set kvs)"
| "proto_accessor (JArr xs) = True"
| "proto_accessor v = False"

fun is_object :: "jsval \<Rightarrow> bool" where
  "is_object (JObj kvs) = True"
| "is_object (JObjP kvs p) = True"
| "is_object (JArr xs) = True"
| "is_object v = False"

text \<open>
  \<open>target[k] = v\<close> as \<open>Object.assign\<close> performs it on its target object. The accessor
  \<open>__proto__\<close> replaces the prototype of the target by \<open>v\<close> when \<open>v\<close> is an object or
  \<open>null\<close> and does nothing for any other \<open>v\<close>; in both cases no own property is made.
  Every other write creates or updates an own property of the target: the properties
  found on a prototype here are writable data properties.
\<close>

fun obj_set :: "jsval \<Rightarrow> string \<Rightarrow> jsval \<Rightarrow> jsval" where
  "obj_set (JObj kvs) k v =
     (if k = ''__proto__'' \<and> proto_accessor (JObj kvs) then
        (if is_object v \<or> v = JNull then JObjP kvs v else JObj kvs)
      else JObj (put_own k v kvs))"
| "obj_set (JObjP kvs p) k v =
     (if k = ''__proto__'' \<and> proto_accessor (JObjP kvs p) then
        (if is_object v \<or> v = JNull then JObjP kvs v else JObjP kvs p)
      else JObjP (put_own k v kvs) p)"
| "obj_set target k v = target"

text \<open>
  \<open>Object.assign(target, ...sources)\<close>: each source's own enumerable properties are
  written to the target in order. Sources that are \<open>undefined\<close> or \<open>null\<close> are skipped.
  The component's target is always a fresh \<open>{}\<close>.
\<close>

definition assign_props :: "jsval \<Rightarrow> (string \<times> jsval) list \<Rightarrow> jsval" where
  "assign_props target src = foldl (\<lambda>t (k, v). obj_set t k v) target src"

definition Object_assign :: "jsval \<Rightarrow> jsval list \<Rightarrow> jsval" where
  "Object_assign target sources = foldl (\<lambda>t s. assign_props t (own_props s)) target sources"

text \<open>
  \<open>const _values = obj => Object.keys(obj).map(x => obj[x])\<close>; \<open>Object.keys\<close> throws on
  \<open>undefined\<close> and \<open>null\<close>.
\<close>

definition values_of :: "jsval \<Rightarrow> error + jsval list" where
  "values_of obj = (if nullish obj then Inl TypeError else Inr (map (\<lambda>x. field obj x) (map fst (own_props obj))))"

subsection \<open>Collaborators\<close>

text \<open>
  The calls the component makes on its collaborators: the socket client, the store
  actions injected as props, the host module loader, the hosting frame, the audio
  element and the timer. \<open>UpdateConfig c b\<close> is \<open>updateConfig(c, bp)\<close> when \<open>b\<close> holds and
  \<open>updateConfig(c)\<close> otherwise.
\<close>

datatype call =
    AddMessageListener
  | NewSocket
  | SetOnMessage
  | SetOnTyping
  | SetOnUserIdChanged
  | SocketSetup
  | UpdateConfig jsval bool
  | LoadModuleView jsval bool
  | ChangeUserId jsval
  | WaitForUserId
  | InitializeChat
  | Observe string
  | SetLoadingCompleted
  | ShowChat
  | HideChat
  | SendMessage jsval
  | SendData jsval
  | AddEventToConversation jsval
  | IncrementUnread
  | ResetUnread
  | AudioPlay string
  | SetTimeout nat
  | PostMessage jsval string

text \<open>
  What the component takes from outside this file and from the browser.
  \<open>DEFAULT_CONFIG\<close> and \<open>MIN_TIME_BETWEEN_SOUNDS\<close> are the constants of
  \<open>core/constants\<close>; \<open>qs_options\<close> is the \<open>options\<close> field of
  \<open>queryString.parse(location.search)\<close>, \<open>None\<close> when the query has no such field;
  \<open>decodeURIComponent\<close> and \<open>JSON_parse\<close> are the functions of the language, which throw
  a URIError and a SyntaxError; \<open>window_parent\<close> tells whether \<open>window.parent\<close> is
  truthy.
\<close>

record runtime =
  DEFAULT_CONFIG :: "(string \<times> jsval) list"
  MIN_TIME_BETWEEN_SOUNDS :: nat
  qs_options :: "string option"
  decodeURIComponent :: "string \<Rightarrow> error + string"
  JSON_parse :: "string \<Rightarrow> error + jsval"
  window_parent :: bool

text \<open>
  What a method reads at the time it runs: \<open>document.hasFocus()\<close> (\<open>None\<close> when the
  document has no such method) and the props \<open>activeView\<close> and \<open>isReady\<close>.
\<close>

record dom =
  hasFocus :: "bool option"
  activeView :: string
  isReady :: bool

text \<open>The fields of the component: \<open>state.played\<close> and \<open>parentClass\<close>.\<close>

record web_state =
  played :: bool
  parentClass :: "string option"

definition initial_state :: web_state where
  "initial_state = \<lparr>played = False, parentClass = None\<rparr>"

subsection \<open>Configuration\<close>

text \<open>
  \<open>extractConfig\<close>: \<open>options || '{}'\<close>, here \<open>options_or_empty\<close>, replaces an absent or
  empty field by the text \<open>{}\<close>; decoding, parsing and destructuring \<open>config\<close> may each throw; the defaults and
  \<open>config\<close> are merged into a fresh object, which is pushed to the store and returned.
\<close>

definition options_or_empty :: "runtime \<Rightarrow> string" where
  "options_or_empty rt = (case qs_options rt of None \<Rightarrow> ''{}'' | Some s \<Rightarrow> if s = [] then ''{}'' else s)"

definition extractConfig :: "runtime \<Rightarrow> call list \<times> (error + jsval)" where
  "extractConfig rt =
     (case decodeURIComponent rt (options_or_empty rt) of
        Inl e \<Rightarrow> ([], Inl e)
      | Inr decoded \<Rightarrow>
          (case JSON_parse rt decoded of
             Inl e \<Rightarrow> ([], Inl e)
           | Inr parsed \<Rightarrow>
               (case get_prop parsed ''config'' of
                  Inl e \<Rightarrow> ([], Inl e)
                | Inr config \<Rightarrow>
                    (let userConfig = Object_assign (JObj []) [JObj (DEFAULT_CONFIG rt), config]
                     in ([UpdateConfig userConfig True], Inr userConfig)))))"

text \<open>
  \<open>loadOverrides\<close>: one \<open>loadModuleView(override.module, true)\<close> per value, in order;
  reading \<open>module\<close> of a nullish value throws and ends the loop.
\<close>

fun loadOverrides_loop :: "jsval list \<Rightarrow> call list \<times> error option" where
  "loadOverrides_loop [] = ([], None)"
| "loadOverrides_loop (override # rest) =
     (case get_prop override ''module'' of
        Inl e \<Rightarrow> ([], Some e)
      | Inr m \<Rightarrow> (case loadOverrides_loop rest of (tr, r) \<Rightarrow> (LoadModuleView m True # tr, r)))"

definition loadOverrides :: "jsval \<Rightarrow> call list \<times> error option" where
  "loadOverrides overrides =
     (case values_of overrides of
        Inl e \<Rightarrow> ([], Some e)
      | Inr vs \<Rightarrow> loadOverrides_loop vs)"

subsection \<open>Messages from the hosting page\<close>

text \<open>
  \<open>handleIframeApi\<close> receives the \<open>data\<close> of a message event. Destructuring \<open>action\<close> and
  \<open>payload\<close> from a nullish \<open>data\<close>, and \<open>type\<close> and \<open>text\<close> from a nullish \<open>payload\<close>,
  throws.
\<close>

definition handleIframeApi :: "runtime \<Rightarrow> jsval \<Rightarrow> call list \<times> error option" where
  "handleIframeApi rt data =
     (if nullish data then ([], Some TypeError)
      else
        let action = field data ''action''; payload = field data ''payload''
        in if action = JStr ''configure'' then
             ([UpdateConfig (Object_assign (JObj []) [JObj (DEFAULT_CONFIG rt), payload]) False], None)
           else if action = JStr ''event'' then
             (if nullish payload then ([], Some TypeError)
              else
                let type = field payload ''type''; text = field payload ''text''
                in if type = JStr ''show'' then ([ShowChat], None)
                   else if type = JStr ''hide'' then ([HideChat], None)
                   else if type = JStr ''message'' then ([SendMessage text], None)
                   else ([SendData (JObj [(''type'', type), (''payload'', payload)])], None))
           else ([], None))"

subsection \<open>Asynchronous methods\<close>

text \<open>
  An \<open>async\<close> method runs to its first \<open>await\<close> and is then suspended until the awaited
  promise settles; resolved, it goes on to the next \<open>await\<close> or to its end; rejected, the
  \<open>await\<close> throws, which here ends the method. A task is what is left of such a method:
  nothing, an error, or a continuation that takes the settlement.
\<close>

datatype settle = Resolved | Rejected

datatype task =
    Finished
  | Failed error
  | Suspended "settle \<Rightarrow> call list \<times> task"

fun resume :: "task \<Rightarrow> settle \<Rightarrow> call list \<times> task" where
  "resume (Suspended k) s = k s"
| "resume t s = ([], t)"

text \<open>A method together with the settlements of the promises it awaits, in order.\<close>

fun run :: "call list \<times> task \<Rightarrow> settle list \<Rightarrow> call list \<times> task" where
  "run (tr, t) [] = (tr, t)"
| "run (tr, t) (s # ss) = (case resume t s of (tr', t') \<Rightarrow> run (tr @ tr', t') ss)"

subsection \<open>The observers\<close>

text \<open>What \<open>observe\<close> hands to a listener.\<close>

record change =
  oldValue :: jsval
  newValue :: jsval

definition userIdObserver :: "change \<Rightarrow> call list \<times> task" where
  "userIdObserver data =
     (if \<not> truthy (oldValue data) then ([], Finished)
      else
        ([ChangeUserId (newValue data)],
         Suspended (\<lambda>s. case s of
             Rejected \<Rightarrow> ([], Failed Rejection)
           | Resolved \<Rightarrow>
               ([InitializeChat],
                Suspended (\<lambda>s. case s of
                    Rejected \<Rightarrow> ([], Failed Rejection)
                  | Resolved \<Rightarrow> ([], Finished))))))"

definition overridesObserver :: "runtime \<Rightarrow> change \<Rightarrow> call list \<times> error option" where
  "overridesObserver rt data =
     (if truthy (newValue data) \<and> window_parent rt then loadOverrides (newValue data)
      else ([], None))"

definition containerObserver :: "runtime \<Rightarrow> change \<Rightarrow> call list \<times> error option" where
  "containerObserver rt data =
     (if truthy (newValue data) \<and> window_parent rt then
        ([PostMessage (JObj [(''type'', JStr ''setWidth''), (''value'', newValue data)]) ''*''], None)
      else ([], None))"

text \<open>\<open>setupObserver\<close> registers the three listeners above.\<close>

definition setupObserver :: "call list" where
  "setupObserver = [Observe ''userId'', Observe ''overrides'', Observe ''container'']"

subsection \<open>The bootstrap\<close>

text \<open>
  \<open>initialize\<close>: the part before the first \<open>await\<close> sets the socket up, resolves the
  configuration, loads its overrides and hands its user id to the socket, each of the
  last two only for a truthy value; an error thrown there rejects the method.
\<close>

definition initialize :: "runtime \<Rightarrow> call list \<times> task" where
  "initialize rt =
     (let socket = [NewSocket, SetOnMessage, SetOnTyping, SetOnUserIdChanged, SocketSetup]
      in case extractConfig rt of
           (tc, Inl e) \<Rightarrow> (socket @ tc, Failed e)
         | (tc, Inr config) \<Rightarrow>
             (case (if truthy (field config ''overrides'') then loadOverrides (field config ''overrides'')
                    else ([], None)) of
                (tv, Some e) \<Rightarrow> (socket @ tc @ tv, Failed e)
              | (tv, None) \<Rightarrow>
                  (socket @ tc @ tv
                     @ (if truthy (field config ''userId'') then [ChangeUserId (field config ''userId'')] else [])
                     @ [WaitForUserId],
                   Suspended (\<lambda>s. case s of
                       Rejected \<Rightarrow> ([], Failed Rejection)
                     | Resolved \<Rightarrow>
                         ([InitializeChat],
                          Suspended (\<lambda>s. case s of
                              Rejected \<Rightarrow> ([], Failed Rejection)
                            | Resolved \<Rightarrow> (setupObserver @ [SetLoadingCompleted], Finished)))))))"

text \<open>\<open>componentDidMount\<close> registers the message listener and starts \<open>initialize\<close>.\<close>

definition componentDidMount :: "runtime \<Rightarrow> call list \<times> task" where
  "componentDidMount rt = (case initialize rt of (tr, t) \<Rightarrow> (AddMessageListener # tr, t))"

subsection \<open>Messages from the socket\<close>

text \<open>
  \<open>playSound\<close> plays unless the latch \<open>state.played\<close> is set, sets the latch and starts
  the timer whose callback, \<open>playSound_timeout\<close>, clears it. A \<open>setState\<close> is taken to be
  in effect when the next message or timer is handled.
\<close>

definition playSound :: "runtime \<Rightarrow> web_state \<Rightarrow> call list \<times> web_state" where
  "playSound rt st =
     (if played st then ([], st)
      else ([AudioPlay ''/assets/modules/channel-web/notification.mp3'',
             SetTimeout (MIN_TIME_BETWEEN_SOUNDS rt)],
            st\<lparr>played := True\<rparr>))"

definition playSound_timeout :: "web_state \<Rightarrow> web_state" where
  "playSound_timeout st = st\<lparr>played := False\<rparr>"

definition handleResetUnreadCount :: "dom \<Rightarrow> call list" where
  "handleResetUnreadCount d =
     (if hasFocus d = Some True \<and> activeView d = ''side'' then [ResetUnread] else [])"

text \<open>The test of the first line of \<open>handleNewMessage\<close>, for an event that is not nullish.\<close>

definition is_visit :: "jsval \<Rightarrow> bool" where
  "is_visit event \<longleftrightarrow>
     (truthy (field event ''payload'') \<and> field (field event ''payload'') ''type'' = JStr ''visit'')
     \<or> field event ''message_type'' = JStr ''visit''"

definition handleNewMessage :: "runtime \<Rightarrow> dom \<Rightarrow> web_state \<Rightarrow> jsval \<Rightarrow> call list \<times> web_state \<times> error option" where
  "handleNewMessage rt d st event =
     (if nullish event then ([], st, Some TypeError)
      else if is_visit event then ([], st, None)
      else
        (case (if hasFocus d = Some False \<or> activeView d \<noteq> ''side'' then
                 (case playSound rt st of (tr, st') \<Rightarrow> (tr @ [IncrementUnread], st'))
               else ([], st)) of
           (tr, st') \<Rightarrow> (AddEventToConversation event # tr @ handleResetUnreadCount d, st', None)))"

subsection \<open>Rendering\<close>

text \<open>
  The part of \<open>render\<close> that acts on the hosting frame; the element tree it returns is
  not modelled.
\<close>

definition computed_class :: "dom \<Rightarrow> string" where
  "computed_class d = ''bp-widget-web bp-widget-'' @ activeView d"

definition setClass_message :: "string \<Rightarrow> call" where
  "setClass_message cls = PostMessage (JObj [(''type'', JStr ''setClass''), (''value'', JStr cls)]) ''*''"

definition render :: "runtime \<Rightarrow> dom \<Rightarrow> web_state \<Rightarrow> call list \<times> web_state" where
  "render rt d st =
     (if \<not> isReady d then ([], st)
      else
        let cls = computed_class d
        in if parentClass st \<noteq> Some cls then
             ((if window_parent rt then [setClass_message cls] else []),
              st\<lparr>parentClass := Some cls\<rparr>)
           else ([], st))"

text \<open>Successive render passes, each with the props of its time.\<close>

fun renders :: "runtime \<Rightarrow> web_state \<Rightarrow> dom list \<Rightarrow> call list \<times> web_state" where
  "renders rt st [] = ([], st)"
| "renders rt st (d # ds) =
     (case render rt d st of (tr, st') \<Rightarrow> (case renders rt st' ds of (tr', st'') \<Rightarrow> (tr @ tr', st'')))"

text \<open>The class strings of the \<open>setClass\<close> messages among some calls, and the last of them.\<close>

fun sent_classes :: "call list \<Rightarrow> string list" where
  "sent_classes [] = []"
| "sent_classes (PostMessage m origin # tr) =
     (case (field m ''type'', field m ''value'') of
        (JStr ty, JStr cls) \<Rightarrow> if ty = ''setClass'' then cls # sent_classes tr else sent_classes tr
      | _ \<Rightarrow> sent_classes tr)"
| "sent_classes (c # tr) = sent_classes tr"

definition last_sent :: "call list \<Rightarrow> string option" where
  "last_sent tr = (if sent_classes tr = [] then None else Some (last (sent_classes tr)))"

text \<open>The calls on the host module loader among some calls.\<close>

fun module_loads :: "call list \<Rightarrow> call list" where
  "module_loads [] = []"
| "module_loads (LoadModuleView m force # tr) = LoadModuleView m force # module_loads tr"
| "module_loads (c # tr) = module_loads tr"

subsection \<open>The sound latch over time\<close>

text \<open>
  The component in the event loop: the clock, the component state, the deadlines of the
  timers that \<open>playSound\<close> has started and not yet seen fire, and the calls made so far
  with their times. Time passes, a message arrives from the socket, or the event loop
  runs the callback of the oldest timer, which it does no earlier than its deadline.
\<close>

record world =
  now :: nat
  comp :: web_state
  timers :: "nat list"
  journal :: "(nat \<times> call) list"

datatype occurrence = Elapse nat | Message dom jsval | TimerFires

definition initial_world :: world where
  "initial_world = \<lparr>now = 0, comp = initial_state, timers = [], journal = []\<rparr>"

fun deadlines :: "nat \<Rightarrow> call list \<Rightarrow> nat list" where
  "deadlines t [] = []"
| "deadlines t (SetTimeout d # tr) = (t + d) # deadlines t tr"
| "deadlines t (c # tr) = deadlines t tr"

fun occur :: "runtime \<Rightarrow> world \<Rightarrow> occurrence \<Rightarrow> world" where
  "occur rt w (Elapse d) = w\<lparr>now := now w + d\<rparr>"
| "occur rt w (Message d event) =
     (case handleNewMessage rt d (comp w) event of
        (tr, st', r) \<Rightarrow>
          w\<lparr>comp := st',
            timers := timers w @ deadlines (now w) tr,
            journal := journal w @ map (Pair (now w)) tr\<rparr>)"
| "occur rt w TimerFires =
     (case timers w of
        [] \<Rightarrow> w
      | t # ts \<Rightarrow> if t \<le> now w then w\<lparr>comp := playSound_timeout (comp w), timers := ts\<rparr> else w)"

definition occurs :: "runtime \<Rightarrow> occurrence list \<Rightarrow> world" where
  "occurs rt os = foldl (occur rt) initial_world os"

text \<open>The times at which the sound was played.\<close>

fun plays :: "(nat \<times> call) list \<Rightarrow> nat list" where
  "plays [] = []"
| "plays ((t, AudioPlay u) # j) = t # plays j"
| "plays (e # j) = plays j"

text \<open>Each play is at least \<open>c\<close> after the one before.\<close>

fun spaced :: "nat \<Rightarrow> nat list \<Rightarrow> bool" where
  "spaced c [] = True"
| "spaced c [t] = True"
| "spaced c (t # t' # ts) = (t + c \<le> t' \<and> spaced c (t' # ts))"

text \<open>
  What the latch and the timers keep true at every moment: the plays so far are spaced
  by the cooldown \<open>c\<close>; while the latch is set exactly one timer is pending, and it
  fires no earlier than \<open>c\<close> after every play; while it is clear no timer is pending
  and every play is at least \<open>c\<close> old.
\<close>

definition latch_inv :: "nat \<Rightarrow> world \<Rightarrow> bool" where
  "latch_inv c w \<longleftrightarrow>
     spaced c (plays (journal w))
     \<and> (if played (comp w) then \<exists>t. timers w = [t] \<and> (\<forall>p\<in>set (plays (journal w)). p + c \<le> t)
        else timers w = [] \<and> (\<forall>p\<in>set (plays (journal w)). p + c \<le> now w))"

subsection \<open>A sample page\<close>

text \<open>
  A runtime to run the component on. Its two functions agree with the language's on
  these inputs: a text without \<open>%\<close> decodes to itself, the four JSON texts parse to the
  values given; every other text is rejected, which the language does for some texts
  only.
\<close>

definition sample_decode :: "string \<Rightarrow> error + string" where
  "sample_decode s = (if CHR ''%'' \<in> set s then Inl URIError else Inr s)"

definition sample_options :: string where
  \<open>sample_options =
     ''{"config":{"botName":"Ada","userId":"u7","overrides":{"before":{"module":"extensions"}}}}''\<close>

definition sample_partial :: "(string \<times> jsval) list" where
  "sample_partial =
     [(''botName'', JStr ''Ada''), (''userId'', JStr ''u7''),
      (''overrides'', JObj [(''before'', JObj [(''module'', JStr ''extensions'')])])]"

text \<open>A configuration whose only key is \<open>__proto__\<close>; parsing makes it an own property.\<close>

definition proto_options :: string where
  \<open>proto_options = ''{"config":{"__proto__":{"userId":"u0"}}}''\<close>

definition proto_partial :: "(string \<times> jsval) list" where
  "proto_partial = [(''__proto__'', JObj [(''userId'', JStr ''u0'')])]"

definition sample_parse :: "string \<Rightarrow> error + jsval" where
  "sample_parse s =
     (if s = ''{}'' then Inr (JObj [])
      else if s = ''null'' then Inr JNull
      else if s = sample_options then Inr (JObj [(''config'', JObj sample_partial)])
      else if s = proto_options then Inr (JObj [(''config'', JObj proto_partial)])
      else Inl SyntaxError)"

definition sample_runtime :: runtime where
  "sample_runtime =
     \<lparr>DEFAULT_CONFIG = [(''botName'', JStr ''Bot''), (''enableReset'', JBool True)],
      MIN_TIME_BETWEEN_SOUNDS = 10000,
      qs_options = None,
      decodeURIComponent = sample_decode,
      JSON_parse = sample_parse,
      window_parent = True\<rparr>"

text \<open>
  The same page opened with a configuration in its query string, and the configuration
  this resolves to.
\<close>

definition configured_runtime :: runtime where
  "configured_runtime = sample_runtime\<lparr>qs_options := Some sample_options\<rparr>"

definition sample_resolved :: jsval where
  "sample_resolved =
     JObj [(''botName'', JStr ''Ada''), (''enableReset'', JBool True), (''userId'', JStr ''u7''),
           (''overrides'', JObj [(''before'', JObj [(''module'', JStr ''extensions'')])])]"

definition sample_dom :: dom where
  "sample_dom = \<lparr>hasFocus = Some False, activeView = ''side'', isReady = True\<rparr>"

section \<open>Properties\<close>

subsection \<open>Merging and reading objects\<close>

lemma map_of_insert_index:
  "k \<notin> fst ` set kvs \<Longrightarrow> map_of (insert_index n (k, v) kvs) = (map_of kvs)(k \<mapsto> v)"
proof (induction kvs)
  case Nil
  show ?case by simp
next
  case (Cons x kvs)
  then have "fst x \<noteq> k" and "k \<notin> fst ` set kvs" by auto
  with Cons.IH show ?case
    by (cases x) (auto simp: fun_upd_twist split: option.splits)
qed

lemma map_of_put_own: "map_of (put_own k v kvs) = (map_of kvs)(k \<mapsto> v)"
proof (cases "k \<in> fst ` set kvs")
  case True
  then show ?thesis by (simp add: put_own_def update_conv')
next
  case False
  then have "map_of kvs k = None" by (simp add: map_of_eq_None_iff)
  with False show ?thesis
    by (auto simp: put_own_def map_of_insert_index map_add_def fun_eq_iff split: option.splits)
qed

lemma assign_props_plain:
  "''__proto__'' \<notin> fst ` set src \<Longrightarrow>
   assign_props (JObj t) src = JObj (own_props (assign_props (JObj t) src))
   \<and> map_of (own_props (assign_props (JObj t) src)) = map_of t ++ map_of (rev src)"
proof (induction src arbitrary: t)
  case Nil
  show ?case by (simp add: assign_props_def)
next
  case (Cons kv src)
  obtain k v where kv: "kv = (k, v)" by (cases kv)
  from Cons.prems have k: "k \<noteq> ''__proto__''" and r: "''__proto__'' \<notin> fst ` set src"
    by (auto simp: kv)
  have s: "assign_props (JObj t) (kv # src) = assign_props (JObj (put_own k v t)) src"
    using k by (simp add: assign_props_def kv)
  from Cons.IH [OF r, of "put_own k v t"] show ?case
    unfolding s by (auto simp: kv map_of_put_own map_add_def fun_eq_iff split: option.splits)
qed

lemma map_of_rev_distinct: "distinct (map fst xs) \<Longrightarrow> map_of (rev xs) = map_of xs"
proof (induction xs)
  case Nil
  show ?case by simp
next
  case (Cons kv xs)
  obtain k v where kv: "kv = (k, v)" by (cases kv)
  from Cons.prems have "map_of xs k = None"
    by (simp add: kv map_of_eq_None_iff)
  with Cons show ?case
    by (auto simp: kv map_add_def fun_eq_iff split: option.splits)
qed

lemma Object_assign_two:
  "Object_assign t [a, b] = assign_props (assign_props t (own_props a)) (own_props b)"
  by (simp add: Object_assign_def)

lemma map_of_merge:
  assumes "distinct (map fst D)" and "distinct (map fst P)"
    and "''__proto__'' \<notin> fst ` set D" and "''__proto__'' \<notin> fst ` set P"
  shows "Object_assign (JObj []) [JObj D, JObj P] = JObj (own_props (Object_assign (JObj []) [JObj D, JObj P]))"
    and "map_of (own_props (Object_assign (JObj []) [JObj D, JObj P])) = map_of D ++ map_of P"
proof -
  let ?t = "own_props (assign_props (JObj []) D)"
  have d: "assign_props (JObj []) D = JObj ?t" and md: "map_of ?t = map_of D"
    using assign_props_plain [OF assms(3), of "[]"] assms(1) by (simp_all add: map_of_rev_distinct)
  have e: "Object_assign (JObj []) [JObj D, JObj P] = assign_props (JObj ?t) P"
    using d by (simp add: Object_assign_two)
  from assign_props_plain [OF assms(4), of ?t] assms(2) md
  show "Object_assign (JObj []) [JObj D, JObj P] = JObj (own_props (Object_assign (JObj []) [JObj D, JObj P]))"
    and "map_of (own_props (Object_assign (JObj []) [JObj D, JObj P])) = map_of D ++ map_of P"
    unfolding e by (simp_all add: map_of_rev_distinct)
qed

lemma own_key_order_before_index:
  "own_key_order (ks @ [k]) \<Longrightarrow> array_index k = Some n \<Longrightarrow> k' \<in> set ks \<Longrightarrow>
   \<exists>m. array_index k' = Some m \<and> m < n"
proof (induction ks arbitrary: k' rule: own_key_order.induct)
  case 1
  then show ?case by simp
next
  case (2 k1)
  then show ?case by (auto split: option.splits)
next
  case (3 k1 k2 ks)
  from "3.prems"(1) have o: "own_key_order ((k2 # ks) @ [k])"
    and r: "case array_index k2 of None \<Rightarrow> True
      | Some n \<Rightarrow> (case array_index k1 of None \<Rightarrow> False | Some m \<Rightarrow> m < n)"
    by simp_all
  from "3.IH" [OF o "3.prems"(2)] have ih: "\<And>x. x \<in> set (k2 # ks) \<Longrightarrow> \<exists>m. array_index x = Some m \<and> m < n"
    by blast
  show ?case
  proof (cases "k' = k1")
    case False
    with "3.prems"(3) ih show ?thesis by auto
  next
    case True
    from ih [of k2] obtain m2 where "array_index k2 = Some m2" "m2 < n" by auto
    with r True show ?thesis by (auto split: option.splits)
  qed
qed

lemma insert_index_last:
  "own_key_order (map fst t @ [k]) \<Longrightarrow> array_index k = Some n \<Longrightarrow> insert_index n (k, v) t = t @ [(k, v)]"
proof -
  assume o: "own_key_order (map fst t @ [k])" and a: "array_index k = Some n"
  have "\<forall>x\<in>set t. \<exists>m. array_index (fst x) = Some m \<and> m < n"
    using own_key_order_before_index [OF o a] by auto
  then show ?thesis by (induction t) auto
qed

lemma own_key_order_prefix: "own_key_order (ks @ ks') \<Longrightarrow> own_key_order ks"
  by (induction ks rule: own_key_order.induct) simp_all

lemma put_own_last:
  "k \<notin> fst ` set t \<Longrightarrow> own_key_order (map fst t @ [k]) \<Longrightarrow> put_own k v t = t @ [(k, v)]"
  by (simp add: put_own_def insert_index_last split: option.splits)

lemma assign_props_ordered:
  "distinct (map fst (t @ D)) \<Longrightarrow> own_key_order (map fst (t @ D)) \<Longrightarrow> ''__proto__'' \<notin> fst ` set D \<Longrightarrow>
   assign_props (JObj t) D = JObj (t @ D)"
proof (induction D arbitrary: t)
  case Nil
  show ?case by (simp add: assign_props_def)
next
  case (Cons kv D)
  obtain k v where kv: "kv = (k, v)" by (cases kv)
  from Cons.prems have k: "k \<noteq> ''__proto__''" "k \<notin> fst ` set t" by (auto simp: kv)
  have "own_key_order ((map fst t @ [k]) @ map fst D)" using Cons.prems(2) by (simp add: kv)
  then have "own_key_order (map fst t @ [k])" by (rule own_key_order_prefix)
  then have p: "put_own k v t = t @ [(k, v)]" using k by (simp add: put_own_last)
  have "assign_props (JObj (t @ [(k, v)])) D = JObj ((t @ [(k, v)]) @ D)"
    using Cons.prems by (intro Cons.IH) (auto simp: kv)
  then show ?case using k by (simp add: assign_props_def kv p)
qed

lemma assign_props_Nil:
  "distinct (map fst D) \<Longrightarrow> own_key_order (map fst D) \<Longrightarrow> ''__proto__'' \<notin> fst ` set D \<Longrightarrow>
   assign_props (JObj []) D = JObj D"
  using assign_props_ordered [of "[]" D] by simp

lemma field_nullish: "nullish v \<Longrightarrow> field v k = JUndefined"
  by (cases v) simp_all

lemmas key_simps = put_own_def array_index_def is_digit_def digit_value_def

text \<open>
  The sample configuration merged over the defaults; array indices listed first; and a
  source whose own key is \<open>__proto__\<close>, which replaces the prototype of the result and
  leaves no own key.
\<close>

lemma sample_merge:
  "Object_assign (JObj []) [JObj (DEFAULT_CONFIG configured_runtime), JObj sample_partial] = sample_resolved"
  by (simp add: configured_runtime_def sample_runtime_def Object_assign_def assign_props_def
      sample_partial_def sample_resolved_def key_simps)

lemma index_keys_first:
  "Object_assign (JObj []) [JObj [(''10'', JNum 2), (''b'', JNum 1)], JObj [(''9'', JNum 3), (''b'', JNum 4), (''01'', JNum 5)]] =
     JObj [(''9'', JNum 3), (''10'', JNum 2), (''b'', JNum 4), (''01'', JNum 5)]"
  by (simp add: Object_assign_def assign_props_def key_simps)

lemma proto_merge:
  "Object_assign (JObj []) [JObj (DEFAULT_CONFIG sample_runtime), JObj proto_partial] =
     JObjP [(''botName'', JStr ''Bot''), (''enableReset'', JBool True)] (JObj [(''userId'', JStr ''u0'')])"
  by (simp add: sample_runtime_def Object_assign_def assign_props_def proto_partial_def key_simps)

lemma sample_texts:
  "decodeURIComponent configured_runtime (options_or_empty configured_runtime) = Inr sample_options"
  "JSON_parse configured_runtime sample_options = Inr (JObj [(''config'', JObj sample_partial)])"
  by (simp_all add: configured_runtime_def sample_runtime_def options_or_empty_def
      sample_decode_def sample_parse_def sample_options_def)

subsection \<open>The resolved configuration\<close>

text \<open>
  Claim C1 as stated: every key of the partial \<open>P\<close> takes the value \<open>P\<close> gives it and
  every key absent from \<open>P\<close> keeps its default. A partial whose own key is \<open>__proto__\<close>,
  as \<open>JSON.parse\<close> makes it, is a well-formed object, but \<open>Object.assign\<close> writes that
  key through the accessor of \<open>Object.prototype\<close>: the resolved configuration has no
  such own key, and \<open>userId\<close>, absent from \<open>P\<close> and from the defaults, reads as the
  value found on the new prototype, which the bootstrap hands to the socket.
\<close>

theorem proto_key_counterexample:
  "distinct (map fst proto_partial)
   \<and> map_of proto_partial ''__proto__'' = Some (JObj [(''userId'', JStr ''u0'')])
   \<and> map_of (own_props (Object_assign (JObj []) [JObj (DEFAULT_CONFIG sample_runtime), JObj proto_partial]))
        ''__proto__'' = None
   \<and> map_of proto_partial ''userId'' = None
   \<and> field (JObj (DEFAULT_CONFIG sample_runtime)) ''userId'' = JUndefined
   \<and> field (Object_assign (JObj []) [JObj (DEFAULT_CONFIG sample_runtime), JObj proto_partial]) ''userId'' = JStr ''u0''
   \<and> handleIframeApi sample_runtime (JObj [(''action'', JStr ''configure''), (''payload'', JObj proto_partial)]) =
       ([UpdateConfig (JObjP [(''botName'', JStr ''Bot''), (''enableReset'', JBool True)]
           (JObj [(''userId'', JStr ''u0'')])) False], None)
   \<and> fst (initialize (sample_runtime\<lparr>qs_options := Some proto_options\<rparr>)) =
       [NewSocket, SetOnMessage, SetOnTyping, SetOnUserIdChanged, SocketSetup,
        UpdateConfig (JObjP [(''botName'', JStr ''Bot''), (''enableReset'', JBool True)]
           (JObj [(''userId'', JStr ''u0'')])) True,
        ChangeUserId (JStr ''u0''), WaitForUserId]"
proof -
  have "fst (initialize (sample_runtime\<lparr>qs_options := Some proto_options\<rparr>)) =
       [NewSocket, SetOnMessage, SetOnTyping, SetOnUserIdChanged, SocketSetup,
        UpdateConfig (JObjP [(''botName'', JStr ''Bot''), (''enableReset'', JBool True)]
           (JObj [(''userId'', JStr ''u0'')])) True,
        ChangeUserId (JStr ''u0''), WaitForUserId]"
    by (simp add: initialize_def extractConfig_def sample_runtime_def options_or_empty_def
        sample_decode_def sample_parse_def proto_options_def sample_options_def get_prop_def
        Object_assign_def assign_props_def proto_partial_def key_simps Let_def)
  moreover have "handleIframeApi sample_runtime (JObj [(''action'', JStr ''configure''), (''payload'', JObj proto_partial)]) =
       ([UpdateConfig (JObjP [(''botName'', JStr ''Bot''), (''enableReset'', JBool True)]
           (JObj [(''userId'', JStr ''u0'')])) False], None)"
    by (simp add: handleIframeApi_def proto_merge Let_def)
  ultimately show ?thesis
    by (simp add: proto_merge) (simp add: proto_partial_def sample_runtime_def)
qed

text \<open>
  Claim C1, amended. For a configuration partial \<open>P\<close>, an object with distinct keys
  none of which is \<open>__proto__\<close>, and defaults of the same kind, the object built from
  the defaults and \<open>P\<close> keeps the prototype of a plain object and maps every key of \<open>P\<close>
  to the value \<open>P\<close> gives it and every other key to what the defaults give it, so that a
  key of \<open>P\<close> unknown to the defaults is carried over and a key absent from \<open>P\<close> keeps
  its default. This object is what \<open>extractConfig\<close> pushes to the store and returns when
  the query string carries \<open>P\<close> as its \<open>config\<close>, and what the \<open>configure\<close> message with
  payload \<open>P\<close> pushes to the store.
\<close>

theorem resolved_configuration_overlay:
  assumes "distinct (map fst (DEFAULT_CONFIG rt))" and "distinct (map fst P)"
    and "''__proto__'' \<notin> fst ` set (DEFAULT_CONFIG rt)" and "''__proto__'' \<notin> fst ` set P"
  shows "Object_assign (JObj []) [JObj (DEFAULT_CONFIG rt), JObj P] =
      JObj (own_props (Object_assign (JObj []) [JObj (DEFAULT_CONFIG rt), JObj P]))
    \<and> map_of (own_props (Object_assign (JObj []) [JObj (DEFAULT_CONFIG rt), JObj P])) =
        map_of (DEFAULT_CONFIG rt) ++ map_of P
    \<and> field (Object_assign (JObj []) [JObj (DEFAULT_CONFIG rt), JObj P]) k =
        (case map_of P k of Some v \<Rightarrow> v | None \<Rightarrow> field (JObj (DEFAULT_CONFIG rt)) k)
    \<and> (decodeURIComponent rt (options_or_empty rt) = Inr decoded \<and> JSON_parse rt decoded = Inr parsed
         \<and> field parsed ''config'' = JObj P \<longrightarrow>
       extractConfig rt =
         ([UpdateConfig (Object_assign (JObj []) [JObj (DEFAULT_CONFIG rt), JObj P]) True],
          Inr (Object_assign (JObj []) [JObj (DEFAULT_CONFIG rt), JObj P])))
    \<and> (field data ''action'' = JStr ''configure'' \<and> field data ''payload'' = JObj P \<longrightarrow>
       handleIframeApi rt data =
         ([UpdateConfig (Object_assign (JObj []) [JObj (DEFAULT_CONFIG rt), JObj P]) False], None))"
proof (intro conjI impI)
  let ?c = "Object_assign (JObj []) [JObj (DEFAULT_CONFIG rt), JObj P]"
  show o: "?c = JObj (own_props ?c)" and m: "map_of (own_props ?c) = map_of (DEFAULT_CONFIG rt) ++ map_of P"
    using assms by (rule map_of_merge)+
  have "field ?c k = field (JObj (own_props ?c)) k" using o by simp
  then show "field ?c k = (case map_of P k of Some v \<Rightarrow> v | None \<Rightarrow> field (JObj (DEFAULT_CONFIG rt)) k)"
    by (simp add: m map_add_def split: option.splits)
next
  assume h: "decodeURIComponent rt (options_or_empty rt) = Inr decoded \<and> JSON_parse rt decoded = Inr parsed
         \<and> field parsed ''config'' = JObj P"
  then have "\<not> nullish parsed" using field_nullish [of parsed "''config''"] by auto
  with h show "extractConfig rt =
         ([UpdateConfig (Object_assign (JObj []) [JObj (DEFAULT_CONFIG rt), JObj P]) True],
          Inr (Object_assign (JObj []) [JObj (DEFAULT_CONFIG rt), JObj P]))"
    by (simp add: extractConfig_def get_prop_def Let_def)
next
  assume h: "field data ''action'' = JStr ''configure'' \<and> field data ''payload'' = JObj P"
  then have "\<not> nullish data" using field_nullish [of data "''action''"] by auto
  with h show "handleIframeApi rt data =
         ([UpdateConfig (Object_assign (JObj []) [JObj (DEFAULT_CONFIG rt), JObj P]) False], None)"
    by (simp add: handleIframeApi_def Let_def)
qed

text \<open>The page opened with a bot name, a user id and an override, and the same sent as a message.\<close>

theorem resolved_configuration_overlay_witness:
  "distinct (map fst (DEFAULT_CONFIG configured_runtime))
   \<and> distinct (map fst sample_partial)
   \<and> ''__proto__'' \<notin> fst ` set (DEFAULT_CONFIG configured_runtime)
   \<and> ''__proto__'' \<notin> fst ` set sample_partial
   \<and> field sample_resolved ''botName'' = JStr ''Ada''
   \<and> field sample_resolved ''enableReset'' = JBool True
   \<and> extractConfig configured_runtime = ([UpdateConfig sample_resolved True], Inr sample_resolved)
   \<and> handleIframeApi configured_runtime
         (JObj [(''action'', JStr ''configure''), (''payload'', JObj sample_partial)]) =
       ([UpdateConfig sample_resolved False], None)"
proof -
  let ?data = "JObj [(''action'', JStr ''configure''), (''payload'', JObj sample_partial)]"
  have d: "distinct (map fst (DEFAULT_CONFIG configured_runtime))"
    and dp: "''__proto__'' \<notin> fst ` set (DEFAULT_CONFIG configured_runtime)"
    by (simp_all add: configured_runtime_def sample_runtime_def)
  have p: "distinct (map fst sample_partial)" and pp: "''__proto__'' \<notin> fst ` set sample_partial"
    by (simp_all add: sample_partial_def)
  have f: "field (JObj [(''config'', JObj sample_partial)]) ''config'' = JObj sample_partial"
    "field ?data ''action'' = JStr ''configure''" "field ?data ''payload'' = JObj sample_partial"
    by simp_all
  have v: "map_of sample_partial ''botName'' = Some (JStr ''Ada'')" "map_of sample_partial ''enableReset'' = None"
    "field (JObj (DEFAULT_CONFIG configured_runtime)) ''enableReset'' = JBool True"
    by (simp_all add: sample_partial_def configured_runtime_def sample_runtime_def)
  note T = resolved_configuration_overlay [OF d p dp pp, where data = ?data
        and parsed = "JObj [(''config'', JObj sample_partial)]" and decoded = sample_options]
  have "field sample_resolved ''botName'' = JStr ''Ada''"
    using T [of "''botName''"] v unfolding sample_merge by simp
  moreover have "field sample_resolved ''enableReset'' = JBool True"
    using T [of "''enableReset''"] v unfolding sample_merge by simp
  moreover have "extractConfig configured_runtime = ([UpdateConfig sample_resolved True], Inr sample_resolved)"
    and "handleIframeApi configured_runtime ?data = ([UpdateConfig sample_resolved False], None)"
    using T [of "''botName''"] f sample_texts unfolding sample_merge by blast+
  ultimately show ?thesis using d p dp pp by blast
qed

subsection \<open>Absent and malformed options\<close>

text \<open>
  Claim C3 as stated: an absent \<open>options\<close> field makes \<open>extractConfig\<close> throw. It does
  not: without the field the text \<open>{}\<close> is decoded and parsed, and the defaults are
  pushed to the store and returned.
\<close>

theorem absent_options_counterexample:
  "qs_options sample_runtime = None
   \<and> extractConfig sample_runtime =
       ([UpdateConfig (JObj [(''botName'', JStr ''Bot''), (''enableReset'', JBool True)]) True],
        Inr (JObj [(''botName'', JStr ''Bot''), (''enableReset'', JBool True)]))"
  by (simp add: sample_runtime_def extractConfig_def options_or_empty_def sample_decode_def
      sample_parse_def get_prop_def Object_assign_def assign_props_def Let_def key_simps)

text \<open>
  Claim C3, amended. An absent or empty \<open>options\<close> field is replaced by the text \<open>{}\<close>,
  so that \<open>extractConfig\<close> does not throw: it pushes to the store and returns the
  defaults merged with nothing, which for well-formed defaults is the defaults
  themselves. A field that fails to decode or to parse makes it throw that error, and
  one that parses to \<open>null\<close> a TypeError, in each case before anything is pushed to the
  store. Every other field gives the defaults merged with the \<open>config\<close> of the parsed
  value, pushed to the store and returned.
\<close>

theorem extractConfig_outcomes:
  "(qs_options rt = None \<or> qs_options rt = Some [] \<longrightarrow> options_or_empty rt = ''{}'')
   \<and> (qs_options rt = None \<or> qs_options rt = Some [] \<longrightarrow>
        decodeURIComponent rt ''{}'' = Inr ''{}'' \<and> JSON_parse rt ''{}'' = Inr (JObj []) \<longrightarrow>
        extractConfig rt =
          ([UpdateConfig (Object_assign (JObj []) [JObj (DEFAULT_CONFIG rt), JUndefined]) True],
           Inr (Object_assign (JObj []) [JObj (DEFAULT_CONFIG rt), JUndefined])))
   \<and> (distinct (map fst (DEFAULT_CONFIG rt)) \<and> own_key_order (map fst (DEFAULT_CONFIG rt))
          \<and> ''__proto__'' \<notin> fst ` set (DEFAULT_CONFIG rt) \<longrightarrow>
        Object_assign (JObj []) [JObj (DEFAULT_CONFIG rt), JUndefined] = JObj (DEFAULT_CONFIG rt))
   \<and> (decodeURIComponent rt (options_or_empty rt) = Inl e \<longrightarrow> extractConfig rt = ([], Inl e))
   \<and> (decodeURIComponent rt (options_or_empty rt) = Inr decoded \<and> JSON_parse rt decoded = Inl e \<longrightarrow>
        extractConfig rt = ([], Inl e))
   \<and> (decodeURIComponent rt (options_or_empty rt) = Inr decoded \<and> JSON_parse rt decoded = Inr parsed
          \<and> nullish parsed \<longrightarrow>
        extractConfig rt = ([], Inl TypeError))
   \<and> (decodeURIComponent rt (options_or_empty rt) = Inr decoded \<and> JSON_parse rt decoded = Inr parsed
          \<and> \<not> nullish parsed \<longrightarrow>
        extractConfig rt =
          ([UpdateConfig (Object_assign (JObj []) [JObj (DEFAULT_CONFIG rt), field parsed ''config'']) True],
           Inr (Object_assign (JObj []) [JObj (DEFAULT_CONFIG rt), field parsed ''config''])))"
proof -
  have a: "qs_options rt = None \<or> qs_options rt = Some [] \<Longrightarrow> options_or_empty rt = ''{}''"
    by (auto simp: options_or_empty_def)
  have b: "extractConfig rt =
          ([UpdateConfig (Object_assign (JObj []) [JObj (DEFAULT_CONFIG rt), JUndefined]) True],
           Inr (Object_assign (JObj []) [JObj (DEFAULT_CONFIG rt), JUndefined]))"
    if "qs_options rt = None \<or> qs_options rt = Some []"
      and "decodeURIComponent rt ''{}'' = Inr ''{}''" and "JSON_parse rt ''{}'' = Inr (JObj [])"
    using that a by (simp add: extractConfig_def get_prop_def Let_def)
  have c: "Object_assign (JObj []) [JObj (DEFAULT_CONFIG rt), JUndefined] = JObj (DEFAULT_CONFIG rt)"
    if "distinct (map fst (DEFAULT_CONFIG rt))" and "own_key_order (map fst (DEFAULT_CONFIG rt))"
      and "''__proto__'' \<notin> fst ` set (DEFAULT_CONFIG rt)"
    using that by (simp add: Object_assign_two assign_props_Nil) (simp add: assign_props_def)
  show ?thesis
    using a b c by (auto simp: extractConfig_def get_prop_def Let_def)
qed

text \<open>No field; a field that does not decode, does not parse, parses to \<open>null\<close>; a good one.\<close>

theorem extractConfig_outcomes_witness:
  "qs_options sample_runtime = None
   \<and> extractConfig sample_runtime =
       ([UpdateConfig (JObj (DEFAULT_CONFIG sample_runtime)) True], Inr (JObj (DEFAULT_CONFIG sample_runtime)))
   \<and> decodeURIComponent sample_runtime (options_or_empty (sample_runtime\<lparr>qs_options := Some ''%7B%''\<rparr>)) = Inl URIError
   \<and> extractConfig (sample_runtime\<lparr>qs_options := Some ''%7B%''\<rparr>) = ([], Inl URIError)
   \<and> JSON_parse sample_runtime ''{config'' = Inl SyntaxError
   \<and> extractConfig (sample_runtime\<lparr>qs_options := Some ''{config''\<rparr>) = ([], Inl SyntaxError)
   \<and> JSON_parse sample_runtime ''null'' = Inr JNull
   \<and> extractConfig (sample_runtime\<lparr>qs_options := Some ''null''\<rparr>) = ([], Inl TypeError)
   \<and> extractConfig configured_runtime = ([UpdateConfig sample_resolved True], Inr sample_resolved)"
proof -
  let ?bad = "sample_runtime\<lparr>qs_options := Some ''%7B%''\<rparr>"
  let ?cut = "sample_runtime\<lparr>qs_options := Some ''{config''\<rparr>"
  let ?null = "sample_runtime\<lparr>qs_options := Some ''null''\<rparr>"
  have s: "qs_options sample_runtime = None" "decodeURIComponent sample_runtime ''{}'' = Inr ''{}''"
    "JSON_parse sample_runtime ''{}'' = Inr (JObj [])" "distinct (map fst (DEFAULT_CONFIG sample_runtime))"
    "own_key_order (map fst (DEFAULT_CONFIG sample_runtime))"
    "''__proto__'' \<notin> fst ` set (DEFAULT_CONFIG sample_runtime)"
    by (simp_all add: sample_runtime_def sample_decode_def sample_parse_def array_index_def is_digit_def)
  have b: "decodeURIComponent ?bad (options_or_empty ?bad) = Inl URIError"
    "decodeURIComponent sample_runtime (options_or_empty ?bad) = Inl URIError"
    by (simp_all add: sample_runtime_def sample_decode_def options_or_empty_def)
  have c: "decodeURIComponent ?cut (options_or_empty ?cut) = Inr ''{config''"
    "JSON_parse ?cut ''{config'' = Inl SyntaxError" "JSON_parse sample_runtime ''{config'' = Inl SyntaxError"
    by (simp_all add: sample_runtime_def sample_decode_def sample_parse_def options_or_empty_def
        sample_options_def proto_options_def)
  have n: "decodeURIComponent ?null (options_or_empty ?null) = Inr ''null''"
    "JSON_parse ?null ''null'' = Inr JNull" "JSON_parse sample_runtime ''null'' = Inr JNull" "nullish JNull"
    by (simp_all add: sample_runtime_def sample_decode_def sample_parse_def options_or_empty_def)
  have m: "Object_assign (JObj []) [JObj (DEFAULT_CONFIG configured_runtime),
        field (JObj [(''config'', JObj sample_partial)]) ''config''] = sample_resolved"
    using sample_merge by simp
  have w: "\<not> nullish (JObj [(''config'', JObj sample_partial)])" by simp
  note T1 = extractConfig_outcomes [of sample_runtime]
  note T2 = extractConfig_outcomes [of ?bad URIError]
  note T3 = extractConfig_outcomes [of ?cut _ "''{config''"]
  note T4 = extractConfig_outcomes [of ?null _ "''null''" JNull]
  note T5 = extractConfig_outcomes [of configured_runtime _ sample_options
      "JObj [(''config'', JObj sample_partial)]"]
  have "Object_assign (JObj []) [JObj (DEFAULT_CONFIG sample_runtime), JUndefined] = JObj (DEFAULT_CONFIG sample_runtime)"
    using T1 s by blast
  moreover have "extractConfig sample_runtime =
       ([UpdateConfig (Object_assign (JObj []) [JObj (DEFAULT_CONFIG sample_runtime), JUndefined]) True],
        Inr (Object_assign (JObj []) [JObj (DEFAULT_CONFIG sample_runtime), JUndefined]))"
    using T1 s by blast
  ultimately have "extractConfig sample_runtime =
       ([UpdateConfig (JObj (DEFAULT_CONFIG sample_runtime)) True], Inr (JObj (DEFAULT_CONFIG sample_runtime)))"
    by simp
  moreover have "extractConfig ?bad = ([], Inl URIError)" using T2 b by blast
  moreover have "extractConfig ?cut = ([], Inl SyntaxError)" using T3 c by blast
  moreover have "extractConfig ?null = ([], Inl TypeError)" using T4 n by blast
  moreover have "extractConfig configured_runtime = ([UpdateConfig sample_resolved True], Inr sample_resolved)"
    using T5 sample_texts w unfolding m by blast
  ultimately show ?thesis using s(1) b(2) c(3) n(3) by blast
qed

subsection \<open>Dispatch of the messages of the hosting page\<close>

text \<open>
  Claim C6 as stated: every message with the action \<open>event\<close> whose type is none of
  \<open>show\<close>, \<open>hide\<close> and \<open>message\<close> is forwarded to the data channel. A message with the
  action \<open>event\<close> and no payload is not: destructuring the missing payload throws a
  TypeError, and nothing is forwarded.
\<close>

theorem event_without_payload_counterexample:
  "field (JObj [(''action'', JStr ''event'')]) ''action'' = JStr ''event''
   \<and> field (JObj [(''action'', JStr ''event'')]) ''payload'' = JUndefined
   \<and> handleIframeApi sample_runtime (JObj [(''action'', JStr ''event'')]) = ([], Some TypeError)"
  by (simp add: handleIframeApi_def)

text \<open>
  Claim C6, amended. The action \<open>configure\<close> pushes the defaults merged with the payload
  to the store. The action \<open>event\<close> with type \<open>show\<close> reveals the panel, with type \<open>hide\<close>
  hides it, with type \<open>message\<close> sends the payload's \<open>text\<close> as a chat message, and with
  a payload that is neither \<open>null\<close> nor \<open>undefined\<close> and has any other type sends the
  object of that type and the payload itself on the data channel.
\<close>

theorem handleIframeApi_dispatch:
  "(field data ''action'' = JStr ''configure'' \<longrightarrow>
      handleIframeApi rt data =
        ([UpdateConfig (Object_assign (JObj []) [JObj (DEFAULT_CONFIG rt), field data ''payload'']) False], None))
   \<and> (field data ''action'' = JStr ''event'' \<and> field (field data ''payload'') ''type'' = JStr ''show'' \<longrightarrow>
      handleIframeApi rt data = ([ShowChat], None))
   \<and> (field data ''action'' = JStr ''event'' \<and> field (field data ''payload'') ''type'' = JStr ''hide'' \<longrightarrow>
      handleIframeApi rt data = ([HideChat], None))
   \<and> (field data ''action'' = JStr ''event'' \<and> field (field data ''payload'') ''type'' = JStr ''message'' \<longrightarrow>
      handleIframeApi rt data = ([SendMessage (field (field data ''payload'') ''text'')], None))
   \<and> (field data ''action'' = JStr ''event'' \<and> \<not> nullish (field data ''payload'')
        \<and> field (field data ''payload'') ''type'' \<notin> {JStr ''show'', JStr ''hide'', JStr ''message''} \<longrightarrow>
      handleIframeApi rt data =
        ([SendData (JObj [(''type'', field (field data ''payload'') ''type''),
                          (''payload'', field data ''payload'')])], None))"
proof -
  have d: "\<not> nullish data" if "field data ''action'' = JStr s" for s
    using that field_nullish [of data "''action''"] by auto
  have p: "\<not> nullish (field data ''payload'')" if "field (field data ''payload'') ''type'' = JStr s" for s
    using that field_nullish [of "field data ''payload''" "''type''"] by auto
  show ?thesis
    using d p by (auto simp: handleIframeApi_def Let_def)
qed

text \<open>One message of each kind.\<close>

theorem handleIframeApi_dispatch_witness:
  "handleIframeApi sample_runtime (JObj [(''action'', JStr ''configure''), (''payload'', JObj [(''botName'', JStr ''Ada'')])]) =
     ([UpdateConfig (JObj [(''botName'', JStr ''Ada''), (''enableReset'', JBool True)]) False], None)
   \<and> handleIframeApi sample_runtime (JObj [(''action'', JStr ''event''), (''payload'', JObj [(''type'', JStr ''show'')])]) =
     ([ShowChat], None)
   \<and> handleIframeApi sample_runtime (JObj [(''action'', JStr ''event''), (''payload'', JObj [(''type'', JStr ''hide'')])]) =
     ([HideChat], None)
   \<and> handleIframeApi sample_runtime
       (JObj [(''action'', JStr ''event''), (''payload'', JObj [(''type'', JStr ''message''), (''text'', JStr ''hello'')])]) =
     ([SendMessage (JStr ''hello'')], None)
   \<and> handleIframeApi sample_runtime
       (JObj [(''action'', JStr ''event''), (''payload'', JObj [(''type'', JStr ''proactive-trigger''), (''payload'', JNum 1)])]) =
     ([SendData (JObj [(''type'', JStr ''proactive-trigger''),
         (''payload'', JObj [(''type'', JStr ''proactive-trigger''), (''payload'', JNum 1)])])], None)"
proof -
  let ?c = "JObj [(''action'', JStr ''configure''), (''payload'', JObj [(''botName'', JStr ''Ada'')])]"
  let ?s = "JObj [(''action'', JStr ''event''), (''payload'', JObj [(''type'', JStr ''show'')])]"
  let ?h = "JObj [(''action'', JStr ''event''), (''payload'', JObj [(''type'', JStr ''hide'')])]"
  let ?m = "JObj [(''action'', JStr ''event''), (''payload'', JObj [(''type'', JStr ''message''), (''text'', JStr ''hello'')])]"
  let ?o = "JObj [(''action'', JStr ''event''), (''payload'', JObj [(''type'', JStr ''proactive-trigger''), (''payload'', JNum 1)])]"
  have m: "Object_assign (JObj []) [JObj (DEFAULT_CONFIG sample_runtime), field ?c ''payload''] =
      JObj [(''botName'', JStr ''Ada''), (''enableReset'', JBool True)]"
    by (simp add: sample_runtime_def Object_assign_def assign_props_def key_simps)
  have "handleIframeApi sample_runtime ?c =
     ([UpdateConfig (JObj [(''botName'', JStr ''Ada''), (''enableReset'', JBool True)]) False], None)"
    using handleIframeApi_dispatch [of ?c sample_runtime] unfolding m by simp
  moreover have "handleIframeApi sample_runtime ?s = ([ShowChat], None)"
    using handleIframeApi_dispatch [of ?s sample_runtime] by simp
  moreover have "handleIframeApi sample_runtime ?h = ([HideChat], None)"
    using handleIframeApi_dispatch [of ?h sample_runtime] by simp
  moreover have "handleIframeApi sample_runtime ?m = ([SendMessage (JStr ''hello'')], None)"
    using handleIframeApi_dispatch [of ?m sample_runtime] by simp
  moreover have "handleIframeApi sample_runtime ?o =
     ([SendData (JObj [(''type'', JStr ''proactive-trigger''),
         (''payload'', JObj [(''type'', JStr ''proactive-trigger''), (''payload'', JNum 1)])])], None)"
    using handleIframeApi_dispatch [of ?o sample_runtime] by simp
  ultimately show ?thesis by blast
qed

text \<open>
  Claim C10. A message whose action is neither \<open>configure\<close> nor \<open>event\<close> makes the
  handler call nothing: no store action runs, so configuration and view state stay as
  they are. Unless the message data is nullish, the handler also returns normally.
\<close>

theorem other_action_no_operation:
  "field data ''action'' \<noteq> JStr ''configure'' \<Longrightarrow> field data ''action'' \<noteq> JStr ''event'' \<Longrightarrow>
   fst (handleIframeApi rt data) = []
   \<and> (\<not> nullish data \<longrightarrow> handleIframeApi rt data = ([], None))"
  by (simp add: handleIframeApi_def Let_def)

text \<open>A message with the action \<open>ping\<close>.\<close>

theorem other_action_no_operation_witness:
  "field (JObj [(''action'', JStr ''ping''), (''payload'', JNum 7)]) ''action'' \<noteq> JStr ''configure''
   \<and> field (JObj [(''action'', JStr ''ping''), (''payload'', JNum 7)]) ''action'' \<noteq> JStr ''event''
   \<and> handleIframeApi sample_runtime (JObj [(''action'', JStr ''ping''), (''payload'', JNum 7)]) = ([], None)"
proof -
  let ?d = "JObj [(''action'', JStr ''ping''), (''payload'', JNum 7)]"
  have a: "field ?d ''action'' \<noteq> JStr ''configure''" and b: "field ?d ''action'' \<noteq> JStr ''event''"
    by simp_all
  have n: "\<not> nullish ?d" by simp
  show ?thesis
    using other_action_no_operation [OF a b, of sample_runtime] a b n by blast
qed

subsection \<open>Visit events\<close>

lemma string_of_nat_digits: "set (string_of_nat n) \<subseteq> set ''0123456789''"
proof (induction n rule: string_of_nat.induct)
  case (1 n)
  have nth: "''0123456789'' ! k \<in> set ''0123456789''" if "k < 10" for k
    using that by (intro nth_mem) simp
  show ?case
  proof (cases "n < 10")
    case True
    then show ?thesis using nth [of n] by (subst string_of_nat.simps) simp
  next
    case False
    have "n mod 10 < 10" by simp
    with False "1.IH" nth [of "n mod 10"] show ?thesis
      by (subst string_of_nat.simps) simp
  qed
qed

lemma index_key_not_type: "map_of (zip (map string_of_nat ns) vs) ''type'' = None"
proof -
  have "''type'' \<notin> set (map string_of_nat ns)"
  proof
    assume "''type'' \<in> set (map string_of_nat ns)"
    then obtain n where "string_of_nat n = ''type''" by auto
    with string_of_nat_digits [of n] show False by simp
  qed
  then have "''type'' \<notin> fst ` set (zip (map string_of_nat ns) vs)"
    by (auto dest: set_zip_leftD)
  then show ?thesis by (simp add: map_of_eq_None_iff)
qed

lemma typed_is_truthy: "field v ''type'' = JStr s \<Longrightarrow> truthy v"
  by (cases v) (simp_all add: index_key_not_type)

text \<open>
  Claim C8. A socket event whose payload has the type \<open>visit\<close>, or whose \<open>message_type\<close>
  is \<open>visit\<close>, makes \<open>handleNewMessage\<close> return at once: it calls nothing, so neither
  \<open>addEventToConversation\<close> nor the unread counter nor the sound, and it leaves the
  component state as it was.
\<close>

theorem visit_ignored:
  "field (field event ''payload'') ''type'' = JStr ''visit'' \<or> field event ''message_type'' = JStr ''visit'' \<Longrightarrow>
   handleNewMessage rt d st event = ([], st, None)"
proof -
  assume h: "field (field event ''payload'') ''type'' = JStr ''visit'' \<or> field event ''message_type'' = JStr ''visit''"
  have "\<not> nullish event"
  proof
    assume "nullish event"
    then have "field event ''payload'' = JUndefined" "field event ''message_type'' = JUndefined"
      by (cases event; simp add: )+
    with h show False by simp
  qed
  moreover have "is_visit event"
    using h typed_is_truthy [of "field event ''payload''" "''visit''"] by (auto simp: is_visit_def)
  ultimately show ?thesis by (simp add: handleNewMessage_def)
qed

text \<open>A visit by its payload and a visit by its message type.\<close>

theorem visit_ignored_witness:
  "field (field (JObj [(''payload'', JObj [(''type'', JStr ''visit'')])]) ''payload'') ''type'' = JStr ''visit''
   \<and> handleNewMessage sample_runtime sample_dom initial_state (JObj [(''payload'', JObj [(''type'', JStr ''visit'')])]) =
       ([], initial_state, None)
   \<and> field (JObj [(''message_type'', JStr ''visit'')]) ''message_type'' = JStr ''visit''
   \<and> handleNewMessage sample_runtime sample_dom initial_state (JObj [(''message_type'', JStr ''visit'')]) =
       ([], initial_state, None)"
proof -
  have a: "field (field (JObj [(''payload'', JObj [(''type'', JStr ''visit'')])]) ''payload'') ''type'' = JStr ''visit''"
    and b: "field (JObj [(''message_type'', JStr ''visit'')]) ''message_type'' = JStr ''visit''"
    by simp_all
  show ?thesis
    using visit_ignored [OF disjI1 [OF a], of sample_runtime sample_dom initial_state]
      visit_ignored [OF disjI2 [OF b], of sample_runtime sample_dom initial_state] a b
    by blast
qed

subsection \<open>The user id observer\<close>

lemma run_Finished: "run (tr, Finished) ss = (tr, Finished)"
  by (induction ss) simp_all

lemma run_Failed: "run (tr, Failed e) ss = (tr, Failed e)"
  by (induction ss) simp_all

text \<open>
  Claim C4. When the old value of \<open>userId\<close> is falsy, as at the first assignment, the
  listener does nothing, whatever settles later. When it is truthy, the listener first
  asks the socket to adopt the new id and, once that has resolved, runs the conversation
  initialization, and ends when this has resolved too; if the socket rejects the id, the
  initialization is not run.
\<close>

theorem userId_watcher:
  "(\<not> truthy (oldValue data) \<longrightarrow> run (userIdObserver data) ss = ([], Finished))
   \<and> (truthy (oldValue data) \<longrightarrow>
        fst (userIdObserver data) = [ChangeUserId (newValue data)]
        \<and> fst (run (userIdObserver data) [Resolved]) = [ChangeUserId (newValue data), InitializeChat]
        \<and> run (userIdObserver data) (Resolved # Resolved # ss) =
            ([ChangeUserId (newValue data), InitializeChat], Finished)
        \<and> run (userIdObserver data) (Rejected # ss) = ([ChangeUserId (newValue data)], Failed Rejection))"
  by (simp add: userIdObserver_def run_Finished run_Failed)

text \<open>The first assignment of an id, and a change from one id to another.\<close>

theorem userId_watcher_witness:
  "\<not> truthy (oldValue \<lparr>oldValue = JUndefined, newValue = JStr ''u7''\<rparr>)
   \<and> run (userIdObserver \<lparr>oldValue = JUndefined, newValue = JStr ''u7''\<rparr>) [Resolved, Resolved] = ([], Finished)
   \<and> truthy (oldValue \<lparr>oldValue = JStr ''u7'', newValue = JStr ''u8''\<rparr>)
   \<and> fst (userIdObserver \<lparr>oldValue = JStr ''u7'', newValue = JStr ''u8''\<rparr>) = [ChangeUserId (JStr ''u8'')]
   \<and> run (userIdObserver \<lparr>oldValue = JStr ''u7'', newValue = JStr ''u8''\<rparr>) [Resolved, Resolved] =
       ([ChangeUserId (JStr ''u8''), InitializeChat], Finished)
   \<and> run (userIdObserver \<lparr>oldValue = JStr ''u7'', newValue = JStr ''u8''\<rparr>) [Rejected] =
       ([ChangeUserId (JStr ''u8'')], Failed Rejection)"
  using userId_watcher [of "\<lparr>oldValue = JUndefined, newValue = JStr ''u7''\<rparr>" "[Resolved, Resolved]"]
    userId_watcher [of "\<lparr>oldValue = JStr ''u7'', newValue = JStr ''u8''\<rparr>" "[]"]
  by simp

subsection \<open>The bootstrap and the overrides\<close>

lemma loadOverrides_loop_calls:
  "fst (loadOverrides_loop vs) =
     map (\<lambda>v. LoadModuleView (field v ''module'') True) (takeWhile (\<lambda>v. \<not> nullish v) vs)"
  by (induction vs) (auto simp: get_prop_def split: prod.splits)

lemma module_loads_map: "module_loads (map (\<lambda>v. LoadModuleView (f v) b) vs) = map (\<lambda>v. LoadModuleView (f v) b) vs"
  by (induction vs) simp_all

lemma module_loads_loadOverrides: "module_loads (fst (loadOverrides ov)) = fst (loadOverrides ov)"
  by (simp add: loadOverrides_def loadOverrides_loop_calls module_loads_map split: sum.splits)

lemma extractConfig_calls_ok: "extractConfig rt = (tc, Inr config) \<Longrightarrow> tc = [UpdateConfig config True]"
  by (auto simp: extractConfig_def Let_def split: sum.splits)

text \<open>The calls of the bootstrap before its first await, for a configuration that resolves.\<close>

lemma initialize_begin:
  assumes "extractConfig rt = (tc, Inr config)"
    and "(if truthy (field config ''overrides'') then loadOverrides (field config ''overrides'') else ([], None)) = (tv, r)"
  shows "fst (initialize rt) =
      [NewSocket, SetOnMessage, SetOnTyping, SetOnUserIdChanged, SocketSetup] @ tc @ tv
        @ (case r of Some e \<Rightarrow> [] | None \<Rightarrow>
            (if truthy (field config ''userId'') then [ChangeUserId (field config ''userId'')] else [])
            @ [WaitForUserId])"
  using assms by (cases r) (simp_all add: initialize_def)

lemma initialize_failed:
  assumes "extractConfig rt = (tc, Inr config)"
    and "(if truthy (field config ''overrides'') then loadOverrides (field config ''overrides'') else ([], None)) = (tv, Some e)"
  shows "snd (initialize rt) = Failed e"
  using assms by (simp add: initialize_def)

lemma initialize_rejected: "extractConfig rt = (tc, Inl e) \<Longrightarrow> initialize rt = ([NewSocket, SetOnMessage, SetOnTyping, SetOnUserIdChanged, SocketSetup] @ tc, Failed e)"
  by (simp add: initialize_def)

lemma initialize_run:
  assumes "extractConfig rt = (tc, Inr config)"
    and "(if truthy (field config ''overrides'') then loadOverrides (field config ''overrides'') else ([], None)) = (tv, None)"
  shows "run (initialize rt) (Rejected # ss) = (fst (initialize rt), Failed Rejection)"
    and "fst (run (initialize rt) [Resolved]) = fst (initialize rt) @ [InitializeChat]"
    and "run (initialize rt) (Resolved # Rejected # ss) = (fst (initialize rt) @ [InitializeChat], Failed Rejection)"
    and "run (initialize rt) (Resolved # Resolved # ss) =
      (fst (initialize rt) @ [InitializeChat] @ setupObserver @ [SetLoadingCompleted], Finished)"
  using assms by (simp_all add: initialize_def run_Finished run_Failed)

lemma initialize_run_cases:
  "fst (run (initialize rt) ss) = fst (initialize rt)
   \<or> fst (run (initialize rt) ss) = fst (initialize rt) @ [InitializeChat]
   \<or> (\<exists>r. ss = Resolved # Resolved # r
         \<and> fst (run (initialize rt) ss) = fst (initialize rt) @ [InitializeChat] @ setupObserver @ [SetLoadingCompleted])"
proof -
  obtain tc r where ec: "extractConfig rt = (tc, r)" by (cases "extractConfig rt")
  show ?thesis
  proof (cases r)
    case (Inl e)
    with ec show ?thesis by (simp add: initialize_rejected run_Failed)
  next
    case (Inr config)
    obtain tv r' where lo: "(if truthy (field config ''overrides'') then loadOverrides (field config ''overrides'')
        else ([], None)) = (tv, r')"
      by (cases "if truthy (field config ''overrides'') then loadOverrides (field config ''overrides'') else ([], None)")
    show ?thesis
    proof (cases r')
      case (Some e)
      with ec Inr lo have "snd (initialize rt) = Failed e" by (simp add: initialize_failed)
      then have "initialize rt = (fst (initialize rt), Failed e)" by (metis prod.collapse)
      then have "run (initialize rt) ss = (fst (initialize rt), Failed e)" by (metis run_Failed)
      then show ?thesis by simp
    next
      case None
      note R = initialize_run [OF ec [unfolded Inr] lo [unfolded None]]
      show ?thesis
      proof (cases ss)
        case Nil
        then show ?thesis by (cases "initialize rt") simp
      next
        case (Cons s ss')
        show ?thesis
        proof (cases s)
          case Rejected
          with Cons R(1) show ?thesis by simp
        next
          case Resolved
          show ?thesis
          proof (cases ss')
            case Nil
            with Cons Resolved R(2) show ?thesis by simp
          next
            case (Cons s2 ss'')
            with \<open>ss = s # ss'\<close> Resolved R(3) R(4) show ?thesis
              by (cases s2) simp_all
          qed
        qed
      qed
    qed
  qed
qed

lemma loadOverrides_only_loads: "c \<in> set (fst (loadOverrides ov)) \<Longrightarrow> \<exists>m. c = LoadModuleView m True"
  by (auto simp: loadOverrides_def loadOverrides_loop_calls split: sum.splits)

lemma initialize_begin_not_completed: "SetLoadingCompleted \<notin> set (fst (initialize rt))"
proof -
  obtain tc r where ec: "extractConfig rt = (tc, r)" by (cases "extractConfig rt")
  show ?thesis
  proof (cases r)
    case (Inl e)
    with ec show ?thesis
      by (auto simp: initialize_rejected extractConfig_def Let_def split: sum.splits)
  next
    case (Inr config)
    obtain tv r' where lo: "(if truthy (field config ''overrides'') then loadOverrides (field config ''overrides'')
        else ([], None)) = (tv, r')"
      by (cases "if truthy (field config ''overrides'') then loadOverrides (field config ''overrides'') else ([], None)")
    have "SetLoadingCompleted \<notin> set tv"
      using lo loadOverrides_only_loads [of SetLoadingCompleted "field config ''overrides''"]
      by (auto split: if_splits)
    then show ?thesis
      using extractConfig_calls_ok [OF ec [unfolded Inr]]
      by (simp add: initialize_begin [OF ec [unfolded Inr] lo] split: option.splits)
  qed
qed

lemma completed_after_both:
  "SetLoadingCompleted \<in> set (fst (run (initialize rt) ss)) \<Longrightarrow> \<exists>r. ss = Resolved # Resolved # r"
  using initialize_run_cases [of rt ss] initialize_begin_not_completed [of rt]
  by auto

lemma componentDidMount_run:
  "run (componentDidMount rt) ss =
     (AddMessageListener # fst (run (initialize rt) ss), snd (run (initialize rt) ss))"
proof -
  have "run (c # tr, t) ss = (c # fst (run (tr, t) ss), snd (run (tr, t) ss))" for c tr t
    by (induction ss arbitrary: tr t) (simp_all split: prod.splits)
  then show ?thesis by (cases "initialize rt") (simp add: componentDidMount_def)
qed

lemma sample_extract: "extractConfig configured_runtime = ([UpdateConfig sample_resolved True], Inr sample_resolved)"
  by (simp add: extractConfig_def configured_runtime_def sample_runtime_def options_or_empty_def
      sample_decode_def sample_parse_def get_prop_def Object_assign_def assign_props_def key_simps
      Let_def sample_options_def sample_partial_def sample_resolved_def)

lemma sample_overrides:
  "field sample_resolved ''overrides'' = JObj [(''before'', JObj [(''module'', JStr ''extensions'')])]"
  "field sample_resolved ''userId'' = JStr ''u7''"
  "loadOverrides (JObj [(''before'', JObj [(''module'', JStr ''extensions'')])]) =
     ([LoadModuleView (JStr ''extensions'') True], None)"
  by (simp_all add: sample_resolved_def loadOverrides_def values_of_def get_prop_def)

text \<open>
  Claim C2. When the configuration resolves and its overrides load, mounting makes these
  calls, each once and in this order: the message listener; the socket client, its three
  callbacks and its setup; the resolved configuration pushed to the store; the loads of
  the overrides; the request to adopt the user id, if the configuration has a truthy one;
  the wait for the socket's user id. Once that has resolved, the conversation
  initialization; once that has resolved too, the three observers and then
  \<open>setLoadingCompleted\<close>. Whatever the configuration and whatever settles, a run in which
  \<open>setLoadingCompleted\<close> is called is one in which both awaited promises resolved.
\<close>

theorem bootstrap_order:
  "(extractConfig rt = (tc, Inr config)
      \<and> (if truthy (field config ''overrides'') then loadOverrides (field config ''overrides'') else ([], None)) = (tv, None) \<longrightarrow>
      fst (componentDidMount rt) =
        [AddMessageListener, NewSocket, SetOnMessage, SetOnTyping, SetOnUserIdChanged, SocketSetup,
         UpdateConfig config True] @ tv
        @ (if truthy (field config ''userId'') then [ChangeUserId (field config ''userId'')] else [])
        @ [WaitForUserId]
      \<and> module_loads tv = tv
      \<and> fst (run (componentDidMount rt) [Resolved]) = fst (componentDidMount rt) @ [InitializeChat]
      \<and> run (componentDidMount rt) (Resolved # Resolved # ss) =
          (fst (componentDidMount rt)
             @ [InitializeChat, Observe ''userId'', Observe ''overrides'', Observe ''container'', SetLoadingCompleted],
           Finished)
      \<and> count_list (fst (run (componentDidMount rt) (Resolved # Resolved # ss))) SetLoadingCompleted = 1)
   \<and> (SetLoadingCompleted \<in> set (fst (run (componentDidMount rt) ss')) \<longrightarrow> (\<exists>r. ss' = Resolved # Resolved # r))"
proof (intro conjI impI)
  show "\<exists>r. ss' = Resolved # Resolved # r" if "SetLoadingCompleted \<in> set (fst (run (componentDidMount rt) ss'))"
    using that completed_after_both [of rt ss'] by (simp add: componentDidMount_run)
next
  assume h: "extractConfig rt = (tc, Inr config)
      \<and> (if truthy (field config ''overrides'') then loadOverrides (field config ''overrides'') else ([], None)) = (tv, None)"
  then have ec: "extractConfig rt = (tc, Inr config)"
    and lo: "(if truthy (field config ''overrides'') then loadOverrides (field config ''overrides'') else ([], None)) = (tv, None)"
    by simp_all
  note R = initialize_run [OF ec lo]
  have cdm: "fst (componentDidMount rt) = AddMessageListener # fst (initialize rt)"
    by (cases "initialize rt") (simp add: componentDidMount_def)
  show b: "fst (componentDidMount rt) =
        [AddMessageListener, NewSocket, SetOnMessage, SetOnTyping, SetOnUserIdChanged, SocketSetup,
         UpdateConfig config True] @ tv
        @ (if truthy (field config ''userId'') then [ChangeUserId (field config ''userId'')] else [])
        @ [WaitForUserId]"
    using extractConfig_calls_ok [OF ec] by (simp add: cdm initialize_begin [OF ec lo])
  show tv: "module_loads tv = tv"
    using lo module_loads_loadOverrides [of "field config ''overrides''"] by (auto split: if_splits)
  show "fst (run (componentDidMount rt) [Resolved]) = fst (componentDidMount rt) @ [InitializeChat]"
    by (simp add: componentDidMount_run R(2) cdm)
  show r: "run (componentDidMount rt) (Resolved # Resolved # ss) =
          (fst (componentDidMount rt)
             @ [InitializeChat, Observe ''userId'', Observe ''overrides'', Observe ''container'', SetLoadingCompleted],
           Finished)"
    by (simp add: componentDidMount_run R(4) cdm setupObserver_def)
  have "SetLoadingCompleted \<notin> set (fst (componentDidMount rt))"
    using initialize_begin_not_completed [of rt] by (simp add: cdm)
  then have "count_list (fst (componentDidMount rt)) SetLoadingCompleted = 0"
    by (simp add: count_list_0_iff)
  then show "count_list (fst (run (componentDidMount rt) (Resolved # Resolved # ss))) SetLoadingCompleted = 1"
    unfolding r by simp
qed

text \<open>The configured page, with both promises resolved, one only, and the second rejected.\<close>

theorem bootstrap_order_witness:
  "extractConfig configured_runtime = ([UpdateConfig sample_resolved True], Inr sample_resolved)
   \<and> run (componentDidMount configured_runtime) [Resolved, Resolved] =
       ([AddMessageListener, NewSocket, SetOnMessage, SetOnTyping, SetOnUserIdChanged, SocketSetup,
         UpdateConfig sample_resolved True, LoadModuleView (JStr ''extensions'') True,
         ChangeUserId (JStr ''u7''), WaitForUserId, InitializeChat,
         Observe ''userId'', Observe ''overrides'', Observe ''container'', SetLoadingCompleted],
        Finished)
   \<and> SetLoadingCompleted \<notin> set (fst (run (componentDidMount configured_runtime) [Resolved]))
   \<and> SetLoadingCompleted \<notin> set (fst (run (componentDidMount configured_runtime) [Resolved, Rejected]))"
proof -
  have lo: "(if truthy (field sample_resolved ''overrides'') then loadOverrides (field sample_resolved ''overrides'')
      else ([], None)) = ([LoadModuleView (JStr ''extensions'') True], None)"
    by (simp add: sample_overrides)
  note T = bootstrap_order [of configured_runtime "[UpdateConfig sample_resolved True]" sample_resolved
      "[LoadModuleView (JStr ''extensions'') True]"]
  have "run (componentDidMount configured_runtime) [Resolved, Resolved] =
       ([AddMessageListener, NewSocket, SetOnMessage, SetOnTyping, SetOnUserIdChanged, SocketSetup,
         UpdateConfig sample_resolved True, LoadModuleView (JStr ''extensions'') True,
         ChangeUserId (JStr ''u7''), WaitForUserId, InitializeChat,
         Observe ''userId'', Observe ''overrides'', Observe ''container'', SetLoadingCompleted],
        Finished)"
    using T [of "[]"] sample_extract lo by (simp add: sample_overrides)
  moreover have "SetLoadingCompleted \<notin> set (fst (run (componentDidMount configured_runtime) [Resolved]))"
    using T [of _ "[Resolved]"] by blast
  moreover have "SetLoadingCompleted \<notin> set (fst (run (componentDidMount configured_runtime) [Resolved, Rejected]))"
    using T [of _ "[Resolved, Rejected]"] by blast
  ultimately show ?thesis using sample_extract by blast
qed

text \<open>
  Claim C5. Overrides are to be loaded only when an overrides value is present and a
  parent frame exists, at bootstrap as on every later change. The observer of the
  \<open>overrides\<close> field keeps to this: without a parent frame it calls nothing, with one it
  loads the override. The bootstrap does not: on the configured page without a parent
  frame it makes the same call of \<open>loadOverrides\<close> without the observer's test of
  \<open>window.parent\<close>, and the host module loader is invoked.
\<close>

theorem bootstrap_loads_without_parent:
  "\<not> window_parent (configured_runtime\<lparr>window_parent := False\<rparr>)
   \<and> field sample_resolved ''overrides'' = JObj [(''before'', JObj [(''module'', JStr ''extensions'')])]
   \<and> fst (componentDidMount (configured_runtime\<lparr>window_parent := False\<rparr>)) =
       [AddMessageListener, NewSocket, SetOnMessage, SetOnTyping, SetOnUserIdChanged, SocketSetup,
        UpdateConfig sample_resolved True, LoadModuleView (JStr ''extensions'') True,
        ChangeUserId (JStr ''u7''), WaitForUserId]
   \<and> overridesObserver (configured_runtime\<lparr>window_parent := False\<rparr>)
         \<lparr>oldValue = JUndefined, newValue = JObj [(''before'', JObj [(''module'', JStr ''extensions'')])]\<rparr> =
       ([], None)
   \<and> overridesObserver configured_runtime
         \<lparr>oldValue = JUndefined, newValue = JObj [(''before'', JObj [(''module'', JStr ''extensions'')])]\<rparr> =
       ([LoadModuleView (JStr ''extensions'') True], None)"
proof -
  have e: "extractConfig (configured_runtime\<lparr>window_parent := False\<rparr>) = extractConfig configured_runtime"
    by (simp add: extractConfig_def options_or_empty_def Let_def split: sum.splits)
  have "fst (componentDidMount (configured_runtime\<lparr>window_parent := False\<rparr>)) =
       [AddMessageListener, NewSocket, SetOnMessage, SetOnTyping, SetOnUserIdChanged, SocketSetup,
        UpdateConfig sample_resolved True, LoadModuleView (JStr ''extensions'') True,
        ChangeUserId (JStr ''u7''), WaitForUserId]"
    by (simp add: componentDidMount_def initialize_def e sample_extract sample_overrides)
  then show ?thesis
    by (simp add: overridesObserver_def sample_overrides configured_runtime_def sample_runtime_def)
qed

subsection \<open>The class of the hosting frame\<close>

lemma map_remdups_adj_head: "f x # map f (tl (remdups_adj (x # xs))) = map f (remdups_adj (x # xs))"
  by (simp add: remdups_adj_Cons split: list.splits)

lemma render_ready:
  "window_parent rt \<Longrightarrow> isReady d \<Longrightarrow>
   render rt d st =
     (if parentClass st = Some (computed_class d) then ([], st)
      else ([setClass_message (computed_class d)], st\<lparr>parentClass := Some (computed_class d)\<rparr>))"
  by (simp add: render_def Let_def)

lemma render_not_ready: "\<not> isReady d \<Longrightarrow> render rt d st = ([], st)"
  by (simp add: render_def)

lemma renders_Cons:
  "fst (renders rt st (d # ds)) = fst (render rt d st) @ fst (renders rt (snd (render rt d st)) ds)"
  "snd (renders rt st (d # ds)) = snd (renders rt (snd (render rt d st)) ds)"
  by (simp_all split: prod.splits)

lemma renders_no_parent: "\<not> window_parent rt \<Longrightarrow> fst (renders rt st ds) = []"
  by (induction ds arbitrary: st) (simp_all add: renders_Cons render_def Let_def del: renders.simps(2))

lemma renders_calls:
  "window_parent rt \<Longrightarrow>
   fst (renders rt st ds) =
     map setClass_message
       (case parentClass st of
          None \<Rightarrow> remdups_adj (map computed_class (filter isReady ds))
        | Some c \<Rightarrow> tl (remdups_adj (c # map computed_class (filter isReady ds))))"
proof (induction ds arbitrary: st)
  case Nil
  show ?case by (simp split: option.splits)
next
  case (Cons d ds)
  show ?case
  proof (cases "isReady d")
    case False
    with Cons show ?thesis by (simp add: render_not_ready renders_Cons del: renders.simps split: option.splits)
  next
    case True
    let ?c = "computed_class d"
    let ?cs = "map computed_class (filter isReady ds)"
    show ?thesis
    proof (cases "parentClass st = Some ?c")
      case same: True
      then have "render rt d st = ([], st)" using Cons.prems True by (simp add: render_ready)
      with Cons same True show ?thesis by (simp add: renders_Cons del: renders.simps)
    next
      case diff: False
      let ?st = "st\<lparr>parentClass := Some ?c\<rparr>"
      have r: "render rt d st = ([setClass_message ?c], ?st)"
        using Cons.prems True diff by (simp add: render_ready)
      have ih: "fst (renders rt ?st ds) = map setClass_message (tl (remdups_adj (?c # ?cs)))"
        using Cons.IH [OF Cons.prems, of ?st] by simp
      have e: "fst (renders rt st (d # ds)) = map setClass_message (remdups_adj (?c # ?cs))"
      proof -
        have "fst (renders rt st (d # ds)) =
            setClass_message ?c # map setClass_message (tl (remdups_adj (?c # ?cs)))"
          by (simp add: r ih renders_Cons del: renders.simps)
        also have "\<dots> = map setClass_message (remdups_adj (?c # ?cs))"
          by (rule map_remdups_adj_head)
        finally show ?thesis .
      qed
      show ?thesis
      proof (cases "parentClass st")
        case None
        with e True show ?thesis by simp
      next
        case (Some c)
        with diff have "c \<noteq> ?c" by simp
        with e True Some show ?thesis by simp
      qed
    qed
  qed
qed

lemma renders_state:
  "parentClass (snd (renders rt st ds)) =
     (if filter isReady ds = [] then parentClass st else Some (computed_class (last (filter isReady ds))))"
proof (induction ds arbitrary: st)
  case Nil
  show ?case by simp
next
  case (Cons d ds)
  show ?case
  proof (cases "isReady d")
    case False
    with Cons show ?thesis by (simp add: render_not_ready renders_Cons del: renders.simps)
  next
    case True
    have "parentClass (snd (render rt d st)) = Some (computed_class d)"
      using True by (simp add: render_def Let_def)
    with Cons [of "snd (render rt d st)"] True show ?thesis
      by (simp add: renders_Cons del: renders.simps)
  qed
qed

lemma sent_classes_messages: "sent_classes (map setClass_message cs) = cs"
  by (induction cs) (simp_all add: setClass_message_def )

lemma last_sent_messages:
  "last_sent (map setClass_message (remdups_adj cs)) = (if cs = [] then None else Some (last cs))"
  by (simp add: last_sent_def sent_classes_messages last_remdups_adj)

text \<open>
  Claim C9 as stated: a render pass emits \<open>setClass\<close> if and only if the computed class
  differs from the last value sent. Without a parent frame nothing is ever sent: the
  first pass of a ready view computes a class, none was sent before, and no message is
  emitted.
\<close>

theorem no_parent_render_counterexample:
  "isReady sample_dom
   \<and> last_sent [] \<noteq> Some (computed_class sample_dom)
   \<and> fst (render (sample_runtime\<lparr>window_parent := False\<rparr>) sample_dom initial_state) = []"
  by (simp add: sample_dom_def last_sent_def render_def sample_runtime_def initial_state_def Let_def)

text \<open>
  Claim C9, amended. With a parent frame, the messages emitted by any sequence of render
  passes of a fresh component are the \<open>setClass\<close> messages of the classes computed in
  its ready passes, one for each run of equal classes; the class the component records
  is the last value sent; a further ready pass emits one \<open>setClass\<close> message if its class
  differs, as a string, from the last value sent, and nothing if it is the same; and any
  number of repeated passes with the props of a ready pass just made emit nothing.
\<close>

theorem setClass_on_change:
  "(window_parent rt \<longrightarrow>
      fst (renders rt initial_state ds) =
        map setClass_message (remdups_adj (map computed_class (filter isReady ds)))
      \<and> parentClass (snd (renders rt initial_state ds)) = last_sent (fst (renders rt initial_state ds))
      \<and> (isReady d \<longrightarrow>
           fst (render rt d (snd (renders rt initial_state ds))) =
             (if last_sent (fst (renders rt initial_state ds)) = Some (computed_class d) then []
              else [setClass_message (computed_class d)])
           \<and> fst (renders rt (snd (render rt d st)) (replicate n d)) = []))
   \<and> (\<not> window_parent rt \<longrightarrow> fst (renders rt st ds) = [])
   \<and> (\<not> isReady d \<longrightarrow> render rt d st = ([], st))"
proof (intro conjI impI)
  let ?cs = "map computed_class (filter isReady ds)"
  show "render rt d st = ([], st)" if "\<not> isReady d"
    using that by (rule render_not_ready)
  show "fst (renders rt st ds) = []" if "\<not> window_parent rt"
    using that by (rule renders_no_parent)
  assume wp: "window_parent rt"
  show a: "fst (renders rt initial_state ds) = map setClass_message (remdups_adj ?cs)"
    using renders_calls [OF wp, of initial_state ds] by (simp add: initial_state_def)
  show b: "parentClass (snd (renders rt initial_state ds)) = last_sent (fst (renders rt initial_state ds))"
    unfolding a last_sent_messages renders_state
    by (simp add: initial_state_def last_map)
  assume rd: "isReady d"
  show "fst (render rt d (snd (renders rt initial_state ds))) =
        (if last_sent (fst (renders rt initial_state ds)) = Some (computed_class d) then []
         else [setClass_message (computed_class d)])"
    unfolding b [symmetric] by (simp add: render_ready [OF wp rd])
  have p: "parentClass (snd (render rt d st)) = Some (computed_class d)"
    using rd by (simp add: render_def Let_def)
  have "remdups_adj (computed_class d # replicate n (computed_class d)) = [computed_class d]"
    by (metis remdups_adj_replicate replicate_Suc Zero_not_Suc)
  then show "fst (renders rt (snd (render rt d st)) (replicate n d)) = []"
    using rd by (simp add: renders_calls [OF wp] p filter_replicate map_replicate)
qed

text \<open>The side panel rendered twice, the widget, and the side panel again.\<close>

theorem setClass_on_change_witness:
  "window_parent sample_runtime \<and> isReady sample_dom
   \<and> fst (renders sample_runtime initial_state
          [sample_dom, sample_dom, sample_dom\<lparr>activeView := ''widget''\<rparr>, sample_dom\<lparr>isReady := False\<rparr>]) =
       [setClass_message ''bp-widget-web bp-widget-side'', setClass_message ''bp-widget-web bp-widget-widget'']
   \<and> fst (render sample_runtime sample_dom (snd (renders sample_runtime initial_state
          [sample_dom, sample_dom, sample_dom\<lparr>activeView := ''widget''\<rparr>, sample_dom\<lparr>isReady := False\<rparr>]))) =
       [setClass_message ''bp-widget-web bp-widget-side'']
   \<and> fst (render sample_runtime sample_dom (snd (renders sample_runtime initial_state [sample_dom]))) = []
   \<and> fst (renders sample_runtime (snd (render sample_runtime sample_dom initial_state)) (replicate 3 sample_dom)) = []
   \<and> \<not> window_parent (sample_runtime\<lparr>window_parent := False\<rparr>)
   \<and> fst (renders (sample_runtime\<lparr>window_parent := False\<rparr>) initial_state
          [sample_dom, sample_dom\<lparr>activeView := ''widget''\<rparr>]) = []
   \<and> \<not> isReady (sample_dom\<lparr>isReady := False\<rparr>)
   \<and> render sample_runtime (sample_dom\<lparr>isReady := False\<rparr>) initial_state = ([], initial_state)"
proof -
  let ?ds = "[sample_dom, sample_dom, sample_dom\<lparr>activeView := ''widget''\<rparr>, sample_dom\<lparr>isReady := False\<rparr>]"
  let ?top = "sample_runtime\<lparr>window_parent := False\<rparr>"
  let ?off = "sample_dom\<lparr>isReady := False\<rparr>"
  have p: "window_parent sample_runtime" "\<not> window_parent ?top" by (simp_all add: sample_runtime_def)
  have r: "isReady sample_dom" "\<not> isReady ?off" by (simp_all add: sample_dom_def)
  note T = setClass_on_change [of sample_runtime _ sample_dom]
  have a: "fst (renders sample_runtime initial_state ?ds) =
       [setClass_message ''bp-widget-web bp-widget-side'', setClass_message ''bp-widget-web bp-widget-widget'']"
    using T [of ?ds] p by (simp add: sample_dom_def computed_class_def)
  have "fst (render sample_runtime sample_dom (snd (renders sample_runtime initial_state ?ds))) =
       [setClass_message ''bp-widget-web bp-widget-side'']"
    using T [of ?ds] p r unfolding a
    by (simp add: last_sent_def sent_classes_messages [of "[_, _]", simplified] sample_dom_def computed_class_def)
  moreover have "fst (render sample_runtime sample_dom (snd (renders sample_runtime initial_state [sample_dom]))) = []"
    using T [of "[sample_dom]"] p
    by (simp add: last_sent_def sent_classes_messages [of "[_]", simplified] r)
  moreover have "fst (renders sample_runtime (snd (render sample_runtime sample_dom initial_state))
      (replicate 3 sample_dom)) = []"
    using T [of _ initial_state 3] p r by blast
  moreover have "fst (renders ?top initial_state [sample_dom, sample_dom\<lparr>activeView := ''widget''\<rparr>]) = []"
    using setClass_on_change [of ?top _ _ initial_state] p by blast
  moreover have "render sample_runtime ?off initial_state = ([], initial_state)"
    using setClass_on_change [of _ _ ?off] r by blast
  ultimately show ?thesis using p r a by blast
qed

subsection \<open>The notification sound\<close>

lemma plays_append: "plays (j @ j') = plays j @ plays j'"
  by (induction j rule: plays.induct) simp_all

lemma spaced_snoc: "spaced c ps \<Longrightarrow> \<forall>p\<in>set ps. p + c \<le> t \<Longrightarrow> spaced c (ps @ [t])"
  by (induction c ps rule: spaced.induct) simp_all

lemma spaced_later: "spaced c (p # ps) \<Longrightarrow> q \<in> set ps \<Longrightarrow> p + c \<le> q"
proof (induction ps arbitrary: p)
  case Nil
  then show ?case by simp
next
  case (Cons p' ps)
  from Cons.prems(1) have a: "p + c \<le> p'" and s: "spaced c (p' # ps)" by simp_all
  show ?case
  proof (cases "q = p'")
    case True
    with a show ?thesis by simp
  next
    case False
    with Cons.prems(2) have "q \<in> set ps" by simp
    from Cons.IH [OF s this] a show ?thesis by simp
  qed
qed

lemma spaced_window: "spaced c ps \<Longrightarrow> length (filter (\<lambda>p. t \<le> p \<and> p < t + c) ps) \<le> 1"
proof (induction ps)
  case Nil
  show ?case by simp
next
  case (Cons p ps)
  have s: "spaced c ps" using Cons.prems by (cases ps) simp_all
  show ?case
  proof (cases "t \<le> p \<and> p < t + c")
    case False
    with Cons.IH [OF s] show ?thesis by auto
  next
    case True
    have "filter (\<lambda>p. t \<le> p \<and> p < t + c) ps = []"
      unfolding filter_empty_conv using spaced_later [OF Cons.prems] True by fastforce
    with True show ?thesis by simp
  qed
qed

lemma handleNewMessage_sound:
  assumes "handleNewMessage rt d st event = (tr, st', r)"
  shows "(plays (map (Pair t) tr) = [] \<and> deadlines t tr = [] \<and> st' = st)
    \<or> (\<not> played st \<and> played st' \<and> plays (map (Pair t) tr) = [t]
        \<and> deadlines t tr = [t + MIN_TIME_BETWEEN_SOUNDS rt])"
  using assms
  by (auto simp: handleNewMessage_def playSound_def handleResetUnreadCount_def plays_append
      split: if_splits)

lemma latch_inv_occur: "latch_inv (MIN_TIME_BETWEEN_SOUNDS rt) w \<Longrightarrow> latch_inv (MIN_TIME_BETWEEN_SOUNDS rt) (occur rt w x)"
proof (cases x)
  case (Elapse n)
  assume "latch_inv (MIN_TIME_BETWEEN_SOUNDS rt) w"
  then show ?thesis by (fastforce simp: latch_inv_def Elapse split: if_splits)
next
  case TimerFires
  assume "latch_inv (MIN_TIME_BETWEEN_SOUNDS rt) w"
  then show ?thesis
    by (fastforce simp: latch_inv_def TimerFires playSound_timeout_def split: if_splits list.splits)
next
  case (Message d event)
  assume i: "latch_inv (MIN_TIME_BETWEEN_SOUNDS rt) w"
  obtain tr st' r where h: "handleNewMessage rt d (comp w) event = (tr, st', r)"
    by (cases "handleNewMessage rt d (comp w) event")
  from handleNewMessage_sound [OF h, of "now w"] show ?thesis
  proof
    assume "plays (map (Pair (now w)) tr) = [] \<and> deadlines (now w) tr = [] \<and> st' = comp w"
    with i h show ?thesis by (simp add: latch_inv_def Message plays_append)
  next
    assume a: "\<not> played (comp w) \<and> played st' \<and> plays (map (Pair (now w)) tr) = [now w]
        \<and> deadlines (now w) tr = [now w + MIN_TIME_BETWEEN_SOUNDS rt]"
    with i have "timers w = []" and b: "\<forall>p\<in>set (plays (journal w)). p + MIN_TIME_BETWEEN_SOUNDS rt \<le> now w"
      and s: "spaced (MIN_TIME_BETWEEN_SOUNDS rt) (plays (journal w))"
      by (simp_all add: latch_inv_def)
    with a h spaced_snoc [OF s b] show ?thesis
      by (auto simp: latch_inv_def Message plays_append)
  qed
qed

lemma latch_inv_occurs: "latch_inv (MIN_TIME_BETWEEN_SOUNDS rt) (occurs rt os)"
proof -
  have "latch_inv (MIN_TIME_BETWEEN_SOUNDS rt) w \<Longrightarrow> latch_inv (MIN_TIME_BETWEEN_SOUNDS rt) (foldl (occur rt) w os)" for w
    by (induction os arbitrary: w) (simp_all add: latch_inv_occur)
  moreover have "latch_inv (MIN_TIME_BETWEEN_SOUNDS rt) initial_world"
    by (simp add: latch_inv_def initial_world_def initial_state_def)
  ultimately show ?thesis by (simp add: occurs_def)
qed

text \<open>Two messages within the cooldown and a third after the timer has cleared the latch.\<close>

lemma sample_burst:
  "plays (journal (occurs sample_runtime
     [Elapse 5, Message sample_dom (JObj [(''payload'', JObj [(''type'', JStr ''text'')])]),
      Elapse 9000, Message sample_dom (JObj [(''payload'', JObj [(''type'', JStr ''text'')])]),
      TimerFires,
      Elapse 2000, TimerFires, Message sample_dom (JObj [(''payload'', JObj [(''type'', JStr ''text'')])])]))
   = [5, 11005]"
  by (simp add: occurs_def initial_world_def initial_state_def sample_runtime_def sample_dom_def
      handleNewMessage_def is_visit_def playSound_def playSound_timeout_def
      handleResetUnreadCount_def)

text \<open>
  Claim C7. While the document lacks focus, a message that is not a visit is added to
  the conversation and increments the unread count exactly once; it plays the sound and
  starts the timer of \<open>MIN_TIME_BETWEEN_SOUNDS\<close> only if the latch is clear, and sets the
  latch; with the latch set it plays nothing. The timer's callback clears the latch.
  In every course of events, whatever the focus and however many messages arrive, any
  window of the length of the cooldown holds at most one play of the sound.
\<close>

theorem sound_cooldown:
  "(hasFocus d = Some False \<and> \<not> nullish event
      \<and> field (field event ''payload'') ''type'' \<noteq> JStr ''visit'' \<and> field event ''message_type'' \<noteq> JStr ''visit'' \<longrightarrow>
      count_list (fst (handleNewMessage rt d st event)) IncrementUnread = 1
      \<and> (played st \<longrightarrow>
           handleNewMessage rt d st event = ([AddEventToConversation event, IncrementUnread], st, None))
      \<and> (\<not> played st \<longrightarrow>
           handleNewMessage rt d st event =
             ([AddEventToConversation event, AudioPlay ''/assets/modules/channel-web/notification.mp3'',
               SetTimeout (MIN_TIME_BETWEEN_SOUNDS rt), IncrementUnread],
              st\<lparr>played := True\<rparr>, None)))
   \<and> played (playSound_timeout st) = False
   \<and> length (filter (\<lambda>p. t \<le> p \<and> p < t + MIN_TIME_BETWEEN_SOUNDS rt) (plays (journal (occurs rt os)))) \<le> 1"
proof (intro conjI impI)
  assume h: "hasFocus d = Some False \<and> \<not> nullish event
      \<and> field (field event ''payload'') ''type'' \<noteq> JStr ''visit'' \<and> field event ''message_type'' \<noteq> JStr ''visit''"
  then have v: "\<not> is_visit event" by (simp add: is_visit_def)
  show "handleNewMessage rt d st event = ([AddEventToConversation event, IncrementUnread], st, None)" if "played st"
    using h v that by (simp add: handleNewMessage_def playSound_def handleResetUnreadCount_def)
  show "handleNewMessage rt d st event =
             ([AddEventToConversation event, AudioPlay ''/assets/modules/channel-web/notification.mp3'',
               SetTimeout (MIN_TIME_BETWEEN_SOUNDS rt), IncrementUnread],
              st\<lparr>played := True\<rparr>, None)" if "\<not> played st"
    using h v that by (simp add: handleNewMessage_def playSound_def handleResetUnreadCount_def)
  show "count_list (fst (handleNewMessage rt d st event)) IncrementUnread = 1"
    using h v by (simp add: handleNewMessage_def playSound_def handleResetUnreadCount_def)
next
  show "played (playSound_timeout st) = False" by (simp add: playSound_timeout_def)
  show "length (filter (\<lambda>p. t \<le> p \<and> p < t + MIN_TIME_BETWEEN_SOUNDS rt) (plays (journal (occurs rt os)))) \<le> 1"
    using latch_inv_occurs [of rt os] by (intro spaced_window) (simp add: latch_inv_def)
qed

text \<open>A message with the latch clear, one with the latch set, and a burst.\<close>

theorem sound_cooldown_witness:
  "hasFocus sample_dom = Some False
   \<and> \<not> nullish (JObj [(''payload'', JObj [(''type'', JStr ''text''), (''text'', JStr ''hi'')])])
   \<and> handleNewMessage sample_runtime sample_dom initial_state
         (JObj [(''payload'', JObj [(''type'', JStr ''text''), (''text'', JStr ''hi'')])]) =
       ([AddEventToConversation (JObj [(''payload'', JObj [(''type'', JStr ''text''), (''text'', JStr ''hi'')])]),
         AudioPlay ''/assets/modules/channel-web/notification.mp3'', SetTimeout 10000, IncrementUnread],
        initial_state\<lparr>played := True\<rparr>, None)
   \<and> handleNewMessage sample_runtime sample_dom (initial_state\<lparr>played := True\<rparr>)
         (JObj [(''payload'', JObj [(''type'', JStr ''text''), (''text'', JStr ''hi'')])]) =
       ([AddEventToConversation (JObj [(''payload'', JObj [(''type'', JStr ''text''), (''text'', JStr ''hi'')])]),
         IncrementUnread],
        initial_state\<lparr>played := True\<rparr>, None)
   \<and> length (filter (\<lambda>p. 5 \<le> p \<and> p < 5 + MIN_TIME_BETWEEN_SOUNDS sample_runtime)
        (plays (journal (occurs sample_runtime
          [Elapse 5, Message sample_dom (JObj [(''payload'', JObj [(''type'', JStr ''text''), (''text'', JStr ''hi'')])]),
           Elapse 9000, Message sample_dom (JObj [(''payload'', JObj [(''type'', JStr ''text''), (''text'', JStr ''hi'')])]),
           TimerFires])))) \<le> 1"
proof -
  let ?ev = "JObj [(''payload'', JObj [(''type'', JStr ''text''), (''text'', JStr ''hi'')])]"
  let ?on = "initial_state\<lparr>played := True\<rparr>"
  have f: "hasFocus sample_dom = Some False" by (simp add: sample_dom_def)
  have n: "\<not> nullish ?ev" by simp
  have v: "field (field ?ev ''payload'') ''type'' \<noteq> JStr ''visit''" "field ?ev ''message_type'' \<noteq> JStr ''visit''"
    by simp_all
  have p: "\<not> played initial_state" "played ?on" by (simp_all add: initial_state_def)
  have c: "MIN_TIME_BETWEEN_SOUNDS sample_runtime = 10000" by (simp add: sample_runtime_def)
  have o: "?on\<lparr>played := True\<rparr> = ?on" by simp
  show ?thesis
    using sound_cooldown [of sample_dom ?ev sample_runtime initial_state 5
        "[Elapse 5, Message sample_dom ?ev, Elapse 9000, Message sample_dom ?ev, TimerFires]"]
      sound_cooldown [of sample_dom ?ev sample_runtime ?on] f n v p
    unfolding c by blast
qed

end
